theory Spec2Isabelle
  imports Complex_Main "HOL-Library.Word"
begin

section \<open>Order-number validation (internal/handler/helpers.go)\<close>

text \<open>
  Go strings are byte sequences, modelled as \<open>string\<close> (a list of 8-bit characters).
  \<open>strconv.Atoi\<close> belongs to the Go standard library; it is modelled from its documented
  behaviour on a 64-bit platform: an optional sign, then at least one decimal digit and
  nothing else, and the value must fit a signed 64-bit integer (otherwise a range error).
\<close>

definition isDigitByte :: "char \<Rightarrow> bool" where
  "isDigitByte c = (48 \<le> (of_char c :: nat) \<and> (of_char c :: nat) \<le> 57)"

fun parseDigits :: "int \<Rightarrow> string \<Rightarrow> int" where
  "parseDigits n [] = n"
| "parseDigits n (c # cs) = parseDigits (n * 10 + int (of_char c - 48)) cs"

definition Atoi :: "string \<Rightarrow> int option" where
  "Atoi s =
     (case s of
        [] \<Rightarrow> None
      | c # cs \<Rightarrow>
          (let neg = (c = CHR ''-'');
               ds = (if c = CHR ''-'' \<or> c = CHR ''+'' then cs else s)
           in if ds = [] \<or> \<not> list_all isDigitByte ds then None
              else (let un = parseDigits 0 ds
                    in if \<not> neg \<and> 2 ^ 63 \<le> un then None
                       else if neg \<and> 2 ^ 63 < un then None
                       else Some (if neg then - un else un))))"

definition isIntegerAtoi :: "string \<Rightarrow> bool" where
  "isIntegerAtoi s = (Atoi s \<noteq> None)"

text \<open>
  \<open>number[i] - '0'\<close> is a subtraction of bytes and wraps modulo 256; the result is then
  converted to \<open>int\<close>.
\<close>

definition byteMinusZero :: "char \<Rightarrow> int" where
  "byteMinusZero c = int (((of_char c :: nat) + 256 - 48) mod 256)"

text \<open>
  The loop of \<open>isValidLuhn\<close> walks the bytes from the last to the first; \<open>luhnLoop\<close> takes
  the bytes already in that order, with the running sum (sumAcc) and the flag \<open>doubleDigit\<close>.
\<close>

fun luhnLoop :: "string \<Rightarrow> int \<Rightarrow> bool \<Rightarrow> int" where
  "luhnLoop [] sumAcc doubleDigit = sumAcc"
| "luhnLoop (c # cs) sumAcc doubleDigit =
     (let digit = byteMinusZero c;
          digit = (if doubleDigit
                   then (let digit = digit * 2 in if digit > 9 then digit - 9 else digit)
                   else digit)
      in luhnLoop cs (sumAcc + digit) (\<not> doubleDigit))"

definition isValidLuhn :: "string \<Rightarrow> bool" where
  "isValidLuhn number =
     (if \<not> isIntegerAtoi number then False
      else luhnLoop (rev number) 0 False mod 10 = 0)"

subsection \<open>The Luhn checksum as the specification words it\<close>

text \<open>
  A decimal numeral string is a non-empty string of the characters 0 to 9. Its Luhn
  checksum counts the digits from the right, starting at 0: a digit at an odd position is
  doubled, and 9 is subtracted when the double exceeds 9; the string passes when the total
  is a multiple of 10.
\<close>

definition is_numeral :: "string \<Rightarrow> bool" where
  "is_numeral s = (s \<noteq> [] \<and> set s \<subseteq> set ''0123456789'')"

definition numeral_digit :: "char \<Rightarrow> nat" where
  "numeral_digit c = of_char c - 48"

definition luhn_term :: "nat \<times> char \<Rightarrow> nat" where
  "luhn_term p =
     (let d = numeral_digit (snd p)
      in if odd (fst p) then (if 2 * d > 9 then 2 * d - 9 else 2 * d) else d)"

definition luhn_total :: "string \<Rightarrow> nat" where
  "luhn_total s = sum_list (map luhn_term (enumerate 0 (rev s)))"

definition luhn_checksum_ok :: "string \<Rightarrow> bool" where
  "luhn_checksum_ok s = (luhn_total s mod 10 = 0)"

definition numeral_value :: "string \<Rightarrow> nat" where
  "numeral_value s = foldl (\<lambda>n c. 10 * n + numeral_digit c) 0 s"

text \<open>A sign followed by a numeral: the other strings \<open>strconv.Atoi\<close> may accept.\<close>

definition is_signed_numeral :: "string \<Rightarrow> bool" where
  "is_signed_numeral s =
     (case s of [] \<Rightarrow> False | c # cs \<Rightarrow> (c = CHR ''-'' \<or> c = CHR ''+'') \<and> is_numeral cs)"



section \<open>Data model (migrations/000001_create_system_table.up.sql, package model)\<close>

text \<open>
  Each table is the list of its rows, in insertion order. The columns the Go code never
  reads or writes (the surrogate keys of \<open>orders\<close>, \<open>user_balance\<close> and
  \<open>loyalty_transactions\<close>, \<open>order_id\<close>, and the timestamps filled by \<open>NOW()\<close>) are left
  out. The constraints of the schema that a statement of the repository can meet are
  modelled where the statement runs: the primary key and the \<open>UNIQUE\<close> constraint of
  \<open>users\<close>, the \<open>UNIQUE\<close> constraint of \<open>orders\<close>, the width of every \<open>VARCHAR\<close> column,
  the precision and scale of every \<open>NUMERIC(10,2)\<close> column, the \<open>INTEGER\<close> column
  \<open>orders.accrual\<close>, the domain of the enumeration \<open>order_status\<close> and the two \<open>CHECK\<close>
  constraints of \<open>user_balance\<close>. A foreign key is not checked again: every user
  identifier that a statement inserts was read from \<open>users\<close> in the same transaction, or
  from a row of \<open>orders\<close>, which has the foreign key itself.
\<close>

subsection \<open>Column types\<close>

text \<open>
  A Go string is the list of its bytes, one byte for one character; this is exact for
  ASCII text, and every order number that passes \<open>isValidLuhn\<close> is ASCII. Strings are
  taken to be texts that the server accepts as parameters (no zero byte).

  \<open>VARCHAR(n)\<close>: a string of at most \<open>n\<close> characters is stored as it is. A longer one is
  refused (\<open>value too long for type character varying(n)\<close>), unless the characters beyond
  the first \<open>n\<close> are all spaces: then the first \<open>n\<close> characters are stored.
  \<open>varchar n s\<close> is the stored string, \<open>None\<close> when the value is refused.
\<close>

definition varchar :: "nat \<Rightarrow> string \<Rightarrow> string option" where
  "varchar n s =
     (if length s \<le> n then Some s
      else if list_all (\<lambda>c. c = CHR '' '') (drop n s) then Some (take n s)
      else None)"

text \<open>
  An amount is a \<open>float64\<close> in Go. It is modelled by the decimal number that the
  \<open>float64\<close> denotes in its shortest decimal form, which is the number the request body
  carried when that had at most 15 significant digits, the number a \<open>NUMERIC(10,2)\<close>
  column held when the \<open>float64\<close> was scanned from one, and the number that is sent to the
  database when the \<open>float64\<close> is bound to a \<open>NUMERIC\<close> parameter. Go does no arithmetic
  on amounts; it only compares them, and two \<open>float64\<close> values compare as their shortest
  decimal forms do. All arithmetic on amounts is done by the database, on decimals,
  exactly.

  \<open>NUMERIC(10,2)\<close>: a value is rounded to two decimals when it is stored, a tie away from
  zero (\<open>round2\<close>); the value is refused (\<open>numeric field overflow\<close>) when the absolute
  value of the rounded number reaches \<open>10 ^ 8\<close>. \<open>numeric_10_2 x\<close> is the stored number,
  \<open>None\<close> when the value is refused.
\<close>

definition roundHalfAway :: "rat \<Rightarrow> int" where
  "roundHalfAway x = (if 0 \<le> x then \<lfloor>x + 1 / 2\<rfloor> else - \<lfloor>- x + 1 / 2\<rfloor>)"

definition round2 :: "rat \<Rightarrow> rat" where
  "round2 x = of_int (roundHalfAway (x * 100)) / 100"

definition numeric_10_2 :: "rat \<Rightarrow> rat option" where
  "numeric_10_2 x = (if 100000000 \<le> \<bar>round2 x\<bar> then None else Some (round2 x))"

subsection \<open>Tables\<close>

type_synonym uuid = string

datatype order_status = NEW | PROCESSING | INVALID | PROCESSED

datatype loyalty_transaction_type = earn | spend

record users_row =
  u_id :: uuid
  u_username :: string
  u_password_hash :: string

record orders_row =
  o_order_number :: string
  o_user_id :: uuid
  o_status :: order_status
  o_accrual :: "int option"

record user_balance_row =
  b_user_id :: uuid
  b_balance :: rat
  b_total_spent :: rat

record loyalty_transactions_row =
  t_user_id :: uuid
  t_order_number :: string
  t_points :: rat
  t_transaction_type :: loyalty_transaction_type

record database =
  users :: "users_row list"
  orders :: "orders_row list"
  user_balance :: "user_balance_row list"
  loyalty_transactions :: "loyalty_transactions_row list"

definition empty_database :: database where
  "empty_database = \<lparr>users = [], orders = [], user_balance = [], loyalty_transactions = []\<rparr>"

text \<open>
  The structs of package model; a Go pointer that may be nil is an option. Fields of
  \<open>OrderWithdrawal\<close>, \<open>AccrualResponse\<close> and \<open>Withdrawal\<close> carry a prefix (\<open>w\<close>, \<open>r\<close>,
  \<open>d\<close>), since these structs share field names.
\<close>

record User =
  Username :: string
  Password :: string

record UserBalance =
  Balance :: rat
  TotalSpent :: rat

record OrderWithdrawal =
  wUser :: "string option"
  wOrder :: string
  wSum :: rat

record AccrualResponse =
  rOrder :: string
  rStatus :: string
  rAccrual :: "rat option"

text \<open>
  The sentinel errors of package errors; \<open>Wrapped m\<close> stands for every error built by
  \<open>fmt.Errorf\<close> with the message prefix \<open>m\<close>.
\<close>

datatype error =
    ErrUserNotFound
  | ErrInvalidPassword
  | ErrUserAlreadyExists
  | ErrOrderAlreadyExists
  | ErrOrderOwnedByAnotherUser
  | ErrInvalidCredentials
  | ErrInvalidRequest
  | ErrPasswordHashing
  | ErrDatabaseOperation
  | ErrBalanceNotFound
  | ErrInsufficientFunds
  | Wrapped string

text \<open>
  A \<open>context.Context\<close> as a call observes it: still live, or already done (cancelled or
  past its deadline). Every \<open>...Context(ctx, ...)\<close> call of database/sql returns the
  context's error without running its statement when the context is done.
  \<open>context.Background()\<close> is never done.
\<close>

datatype ctx_state = CtxLive | CtxDone

definition Background :: ctx_state where
  "Background = CtxLive"

section \<open>The repository (internal/repository/dbstorage.go)\<close>

text \<open>
  Every operation takes the database and returns the database after it together with the
  Go error (\<open>None\<close> for \<open>nil\<close>). An operation that returns after a rollback, or before its
  first write, returns the database it was given.
\<close>

subsection \<open>The statements that write amounts\<close>

definition balance_check :: "user_balance_row \<Rightarrow> bool" where
  "balance_check r = (0 \<le> b_balance r \<and> 0 \<le> b_total_spent r)"

text \<open>
  \<open>UPDATE ... SET ... WHERE ...\<close>: every row that the condition selects is replaced by its
  new row; the statement fails as a whole (\<open>None\<close>) when one new row is refused.
\<close>

fun updateRows :: "('a \<Rightarrow> bool) \<Rightarrow> ('a \<Rightarrow> 'a option) \<Rightarrow> 'a list \<Rightarrow> 'a list option" where
  "updateRows selected new [] = Some []"
| "updateRows selected new (r # rs) =
     (case (if selected r then new r else Some r) of
        None \<Rightarrow> None
      | Some r' \<Rightarrow> map_option (Cons r') (updateRows selected new rs))"

text \<open>
  The new row of \<open>SET balance = balance - $1, total_spent = total_spent + $1\<close>: both
  columns are \<open>NUMERIC(10,2)\<close>, and the new row has to pass the two \<open>CHECK\<close> constraints.
\<close>

definition debitRow :: "rat \<Rightarrow> user_balance_row \<Rightarrow> user_balance_row option" where
  "debitRow amount r =
     (case numeric_10_2 (b_balance r - amount) of
        None \<Rightarrow> None
      | Some b \<Rightarrow>
          (case numeric_10_2 (b_total_spent r + amount) of
             None \<Rightarrow> None
           | Some t \<Rightarrow>
               (let r' = r\<lparr>b_balance := b, b_total_spent := t\<rparr>
                in if balance_check r' then Some r' else None)))"

text \<open>The new row of \<open>SET balance = balance + $1\<close>.\<close>

definition creditRow :: "rat \<Rightarrow> user_balance_row \<Rightarrow> user_balance_row option" where
  "creditRow amount r =
     (case numeric_10_2 (b_balance r + amount) of
        None \<Rightarrow> None
      | Some b \<Rightarrow>
          (let r' = r\<lparr>b_balance := b\<rparr>
           in if balance_check r' then Some r' else None))"

text \<open>
  \<open>INSERT INTO loyalty_transactions (user_id, order_number, points, transaction_type,
  processed_at)\<close>: \<open>order_number\<close> is \<open>VARCHAR(255)\<close> and \<open>points\<close> is \<open>NUMERIC(10,2)\<close>.
  The result is the table after the statement, \<open>None\<close> when the row is refused.
\<close>

definition insertTransaction ::
  "loyalty_transactions_row list \<Rightarrow> uuid \<Rightarrow> string \<Rightarrow> rat \<Rightarrow> loyalty_transaction_type \<Rightarrow>
   loyalty_transactions_row list option" where
  "insertTransaction txs userID orderNumber points kind =
     (case varchar 255 orderNumber of
        None \<Rightarrow> None
      | Some n \<Rightarrow>
          (case numeric_10_2 points of
             None \<Rightarrow> None
           | Some p \<Rightarrow>
               Some (txs @ [\<lparr>t_user_id = userID, t_order_number = n, t_points = p,
                             t_transaction_type = kind\<rparr>])))"

subsection \<open>The operations\<close>

text \<open>
  The rows of \<open>user_balance ub INNER JOIN users u ON ub.user_id = u.id WHERE u.username = $1\<close>;
  \<open>QueryRow\<close> scans the first one.
\<close>

definition joinUserBalance ::
  "users_row list \<Rightarrow> user_balance_row list \<Rightarrow> string \<Rightarrow> (users_row \<times> user_balance_row) list" where
  "joinUserBalance us ubs username =
     concat (map (\<lambda>ub. map (\<lambda>u. (u, ub))
                   (filter (\<lambda>u. b_user_id ub = u_id u \<and> u_username u = username) us)) ubs)"

definition checkUserExists :: "ctx_state \<Rightarrow> database \<Rightarrow> string \<Rightarrow> bool \<times> error option" where
  "checkUserExists ctx db username =
     (if ctx = CtxDone then (False, Some (Wrapped ''error checking if user exists''))
      else (list_ex (\<lambda>u. u_username u = username) (users db), None))"

text \<open>
  \<open>auth.HashPassword\<close> is not among the sources: \<open>SetUser\<close> takes it as the parameter
  \<open>HashPassword\<close> (\<open>None\<close> when it fails). \<open>newID\<close> is the identifier that
  \<open>uuid_generate_v4()\<close> draws for the new row of \<open>users\<close>. The \<open>INSERT\<close> into \<open>users\<close>
  is refused when the username does not fit \<open>VARCHAR(50)\<close>, when the hash does not fit
  \<open>VARCHAR(255)\<close>, and when the identifier or the stored username is already there.
\<close>

definition SetUser ::
  "(string \<Rightarrow> string option) \<Rightarrow> uuid \<Rightarrow> ctx_state \<Rightarrow> database \<Rightarrow> User \<Rightarrow> database \<times> error option" where
  "SetUser HashPassword newID ctx db user =
     (if Username user = [] \<or> Password user = [] then (db, Some ErrInvalidRequest)
      else (case checkUserExists ctx db (Username user) of
              (_, Some e) \<Rightarrow> (db, Some (Wrapped ''error checking user existence''))
            | (exists, None) \<Rightarrow>
                if exists then (db, Some ErrUserAlreadyExists)
                else (case HashPassword (Password user) of
                        None \<Rightarrow> (db, Some ErrPasswordHashing)
                      | Some passwordHash \<Rightarrow>
                          (case (varchar 50 (Username user), varchar 255 passwordHash) of
                             (Some name, Some hash) \<Rightarrow>
                               if newID \<in> set (map u_id (users db)) \<or>
                                  name \<in> set (map u_username (users db))
                               then (db, Some (Wrapped ''error saving user''))
                               else (db\<lparr>users := users db @
                                          [\<lparr>u_id = newID, u_username = name,
                                            u_password_hash = hash\<rparr>],
                                        user_balance := user_balance db @
                                          [\<lparr>b_user_id = newID, b_balance = 0,
                                            b_total_spent = 0\<rparr>]\<rparr>,
                                     None)
                           | _ \<Rightarrow> (db, Some (Wrapped ''error saving user''))))))"

definition GetUserBalance :: "ctx_state \<Rightarrow> database \<Rightarrow> string \<Rightarrow> UserBalance \<times> error option" where
  "GetUserBalance ctx db username =
     (if ctx = CtxDone
      then (\<lparr>Balance = 0, TotalSpent = 0\<rparr>, Some (Wrapped ''error retrieving balance''))
      else (case joinUserBalance (users db) (user_balance db) username of
              [] \<Rightarrow> (\<lparr>Balance = 0, TotalSpent = 0\<rparr>, Some ErrBalanceNotFound)
            | (u, ub) # _ \<Rightarrow>
                (\<lparr>Balance = b_balance ub, TotalSpent = b_total_spent ub\<rparr>, None)))"

text \<open>
  \<open>orderWithdrawal.User\<close> is a \<open>*string\<close>: a nil pointer is bound as SQL \<open>NULL\<close>, and
  \<open>u.username = NULL\<close> selects no row.
\<close>

definition SpendPoints :: "ctx_state \<Rightarrow> database \<Rightarrow> OrderWithdrawal \<Rightarrow> database \<times> error option" where
  "SpendPoints ctx db orderWithdrawal =
     (if ctx = CtxDone then (db, Some (Wrapped ''error checking user balance''))
      else (case (case wUser orderWithdrawal of
                    None \<Rightarrow> []
                  | Some username \<Rightarrow> joinUserBalance (users db) (user_balance db) username) of
              [] \<Rightarrow> (db, Some ErrBalanceNotFound)
            | (u, ub) # _ \<Rightarrow>
                (let userID = u_id u; currentBalance = b_balance ub
                 in if wSum orderWithdrawal > currentBalance then (db, Some ErrInsufficientFunds)
                    else (case updateRows (\<lambda>r. b_user_id r = userID)
                                 (debitRow (wSum orderWithdrawal)) (user_balance db) of
                            None \<Rightarrow> (db, Some (Wrapped ''error updating user balance''))
                          | Some ubs \<Rightarrow>
                              (case insertTransaction (loyalty_transactions db) userID
                                      (wOrder orderWithdrawal) (wSum orderWithdrawal) spend of
                                 None \<Rightarrow> (db, Some (Wrapped ''error creating loyalty transaction''))
                               | Some txs \<Rightarrow>
                                   (db\<lparr>user_balance := ubs, loyalty_transactions := txs\<rparr>,
                                    None))))))"

text \<open>
  The \<open>INSERT\<close> into \<open>orders\<close> is refused when the order number does not fit
  \<open>VARCHAR(255)\<close> and when the stored order number is already there.
\<close>

definition AddOrder :: "ctx_state \<Rightarrow> database \<Rightarrow> string \<Rightarrow> string \<Rightarrow> database \<times> error option" where
  "AddOrder ctx db username orderNumber =
     (if ctx = CtxDone then (db, Some (Wrapped ''error getting user ID''))
      else (case find (\<lambda>u. u_username u = username) (users db) of
              None \<Rightarrow> (db, Some ErrUserNotFound)
            | Some u \<Rightarrow>
                (let userID = u_id u
                 in case find (\<lambda>r. o_order_number r = orderNumber) (orders db) of
                      Some existing \<Rightarrow>
                        if o_user_id existing = userID then (db, Some ErrOrderAlreadyExists)
                        else (db, Some ErrOrderOwnedByAnotherUser)
                    | None \<Rightarrow>
                        (case varchar 255 orderNumber of
                           None \<Rightarrow> (db, Some (Wrapped ''error inserting order''))
                         | Some stored \<Rightarrow>
                             if stored \<in> set (map o_order_number (orders db))
                             then (db, Some (Wrapped ''error inserting order''))
                             else (db\<lparr>orders := orders db @
                                        [\<lparr>o_order_number = stored, o_user_id = userID,
                                          o_status = NEW, o_accrual = None\<rparr>]\<rparr>,
                                   None)))))"

text \<open>A status string outside the enumeration \<open>order_status\<close> makes the \<open>UPDATE\<close> fail.\<close>

definition order_status_of :: "string \<Rightarrow> order_status option" where
  "order_status_of s =
     (if s = ''NEW'' then Some NEW
      else if s = ''PROCESSING'' then Some PROCESSING
      else if s = ''INVALID'' then Some INVALID
      else if s = ''PROCESSED'' then Some PROCESSED
      else None)"

definition UpdateOrderStatus :: "ctx_state \<Rightarrow> database \<Rightarrow> string \<Rightarrow> string \<Rightarrow> database \<times> error option" where
  "UpdateOrderStatus ctx db orderNumber status =
     (if ctx = CtxDone then (db, Some (Wrapped ''error updating order status''))
      else (case order_status_of status of
              None \<Rightarrow> (db, Some (Wrapped ''error updating order status''))
            | Some st \<Rightarrow>
                (db\<lparr>orders := map (\<lambda>r. if o_order_number r = orderNumber
                                        then r\<lparr>o_status := st\<rparr> else r) (orders db)\<rparr>,
                 None)))"

text \<open>
  \<open>accrual\<close> is a \<open>*float64\<close> and \<open>orders.accrual\<close> an \<open>INTEGER\<close> column: a nil pointer is
  stored as \<open>NULL\<close>, and a number is turned into the integer parameter by the database
  driver (\<open>pgx\<close>), which is not among the sources. \<open>UpdateOrderStatusAndAccrual\<close> takes
  this conversion as the parameter \<open>toInteger\<close>: \<open>toInteger a\<close> is the integer stored for the
  accrual \<open>a\<close>, \<open>None\<close> when the value is refused, which makes the \<open>UPDATE\<close> of \<open>orders\<close>
  fail.
\<close>

definition accrualColumn :: "(rat \<Rightarrow> int option) \<Rightarrow> rat option \<Rightarrow> int option option" where
  "accrualColumn toInteger accrual =
     (case accrual of
        None \<Rightarrow> Some None
      | Some a \<Rightarrow> map_option Some (toInteger a))"

definition UpdateOrderStatusAndAccrual ::
  "(rat \<Rightarrow> int option) \<Rightarrow> ctx_state \<Rightarrow> database \<Rightarrow> string \<Rightarrow> string \<Rightarrow> rat option \<Rightarrow>
   database \<times> error option" where
  "UpdateOrderStatusAndAccrual toInteger ctx db orderNumber status accrual =
     (if ctx = CtxDone then (db, Some (Wrapped ''error getting user ID for order''))
      else (case find (\<lambda>r. o_order_number r = orderNumber) (orders db) of
              None \<Rightarrow> (db, Some (Wrapped ''error getting user ID for order''))
            | Some row \<Rightarrow>
                (let userID = o_user_id row
                 in case (order_status_of status, accrualColumn toInteger accrual) of
                      (Some st, Some stored) \<Rightarrow>
                        (let db1 = db\<lparr>orders := map (\<lambda>r. if o_order_number r = orderNumber
                                                          then r\<lparr>o_status := st, o_accrual := stored\<rparr>
                                                          else r) (orders db)\<rparr>
                         in if status = ''PROCESSED'' \<and> accrual \<noteq> None \<and> the accrual > 0
                            then (case updateRows (\<lambda>r. b_user_id r = userID)
                                         (creditRow (the accrual)) (user_balance db1) of
                                    None \<Rightarrow> (db, Some (Wrapped ''error updating user balance''))
                                  | Some ubs \<Rightarrow>
                                      (case insertTransaction (loyalty_transactions db1) userID
                                              orderNumber (the accrual) earn of
                                         None \<Rightarrow>
                                           (db, Some (Wrapped ''error creating loyalty transaction''))
                                       | Some txs \<Rightarrow>
                                           (db1\<lparr>user_balance := ubs, loyalty_transactions := txs\<rparr>,
                                            None)))
                            else (db1, None))
                    | _ \<Rightarrow> (db, Some (Wrapped ''error updating order status and accrual'')))))"


section \<open>The handlers (internal/handler/handlers.go)\<close>

text \<open>
  A handler is modelled by the database after it, the HTTP status it answers with and, for
  \<open>SendOrderHandler\<close>, whether it started a polling goroutine. \<open>body\<close> is the result of
  \<open>HandleDecompression\<close> (\<open>None\<close> when it fails) and \<open>claim\<close> the string claim
  \<open>user_id\<close> of the token (\<open>None\<close> when the type assertion fails).
\<close>

definition SendOrderHandler ::
  "ctx_state \<Rightarrow> database \<Rightarrow> string option \<Rightarrow> string option \<Rightarrow> database \<times> nat \<times> bool" where
  "SendOrderHandler ctx db body claim =
     (case body of
        None \<Rightarrow> (db, 400, False)
      | Some orderNumber \<Rightarrow>
          if length orderNumber = 0 then (db, 422, False)
          else if \<not> isValidLuhn orderNumber then (db, 422, False)
          else (case claim of
                  None \<Rightarrow> (db, 401, False)
                | Some username \<Rightarrow>
                    (case AddOrder ctx db username orderNumber of
                       (db1, Some err) \<Rightarrow>
                         if err = ErrUserNotFound then (db1, 500, False)
                         else if err = ErrOrderAlreadyExists then (db1, 200, False)
                         else if err = ErrOrderOwnedByAnotherUser then (db1, 409, False)
                         else (db1, 500, False)
                     | (db1, None) \<Rightarrow> (db1, 202, True))))"

text \<open>
  The body of a withdrawal request after \<open>json.Unmarshal\<close> (\<open>None\<close> when decompression or
  decoding fails; both answer 400).
\<close>

record Withdrawal =
  dOrder :: string
  dSum :: rat

definition WithdrawPointsHandler ::
  "ctx_state \<Rightarrow> database \<Rightarrow> string option \<Rightarrow> Withdrawal option \<Rightarrow> database \<times> nat" where
  "WithdrawPointsHandler ctx db claim body =
     (case claim of
        None \<Rightarrow> (db, 401)
      | Some username \<Rightarrow>
          (case body of
             None \<Rightarrow> (db, 400)
           | Some withdrawal \<Rightarrow>
               if dOrder withdrawal = [] \<or> dSum withdrawal \<le> 0 then (db, 400)
               else if \<not> isValidLuhn (dOrder withdrawal) then (db, 422)
               else (case SpendPoints ctx db
                            \<lparr>wUser = Some username, wOrder = dOrder withdrawal,
                             wSum = dSum withdrawal\<rparr> of
                       (db1, Some err) \<Rightarrow>
                         if err = ErrInsufficientFunds then (db1, 402) else (db1, 500)
                     | (db1, None) \<Rightarrow> (db1, 200))))"

section \<open>The polling worker (package service, PollOrderStatus)\<close>

text \<open>
  What \<open>http.Get\<close> hands to the worker: an error, or a response with its status code, the
  result of decoding its body as an \<open>AccrualResponse\<close> (\<open>None\<close> when decoding fails) and
  the value of \<open>resp.Header.Get("Retry-After")\<close> (empty when the header is absent).
\<close>

record Response =
  StatusCode :: nat
  Body :: "AccrualResponse option"
  RetryAfterHeader :: string

datatype http_result = GetFailed | Got Response

text \<open>\<open>time.Duration\<close> is a signed 64-bit count of nanoseconds; its arithmetic wraps.\<close>

type_synonym Duration = "64 word"

definition Second :: Duration where
  "Second = 1000000000"

definition retryAfterOf :: "string \<Rightarrow> Duration" where
  "retryAfterOf retryAfterHeader =
     (let retryAfter = 30 * Second
      in if retryAfterHeader \<noteq> []
         then (case Atoi retryAfterHeader of
                 Some seconds \<Rightarrow> word_of_int seconds * Second
               | None \<Rightarrow> retryAfter)
         else retryAfter)"

text \<open>
  \<open>time.Sleep d\<close> pauses the goroutine for at least \<open>d\<close> and returns at once when \<open>d\<close> is
  zero or negative: \<open>Sleep d\<close> is the number of nanoseconds for which the goroutine is
  certainly paused.
\<close>

definition Sleep :: "Duration \<Rightarrow> int" where
  "Sleep d = (if sint d \<le> 0 then 0 else sint d)"

text \<open>
  One pass through the \<open>case <-ticker.C\<close> branch. It ends either with \<open>return\<close> or with
  \<open>continue\<close>; \<open>Continue p\<close> records the nanoseconds \<open>p\<close> spent in \<open>time.Sleep\<close> before
  the worker is back at its \<open>select\<close> (0 when the pass does not sleep). \<open>updCtx\<close> is
  the context the pass hands to the repository, and \<open>toInteger\<close> the conversion that
  \<open>UpdateOrderStatusAndAccrual\<close> takes.
\<close>

datatype iteration = Return | Continue int

definition pollOnce ::
  "(rat \<Rightarrow> int option) \<Rightarrow> ctx_state \<Rightarrow> string \<Rightarrow> http_result \<Rightarrow> database \<Rightarrow> database \<times> iteration" where
  "pollOnce toInteger updCtx orderNumber res db =
     (case res of
        GetFailed \<Rightarrow> (db, Continue 0)
      | Got resp \<Rightarrow>
          if StatusCode resp = 200
          then (case Body resp of
                  None \<Rightarrow> (db, Continue 0)
                | Some accrualResponse \<Rightarrow>
                    if rStatus accrualResponse = ''PROCESSED'' \<or> rStatus accrualResponse = ''INVALID''
                    then (if rStatus accrualResponse = ''PROCESSED'' \<and> rAccrual accrualResponse \<noteq> None
                          then (fst (UpdateOrderStatusAndAccrual toInteger updCtx db orderNumber
                                       (rStatus accrualResponse) (rAccrual accrualResponse)), Return)
                          else (fst (UpdateOrderStatus updCtx db orderNumber
                                       (rStatus accrualResponse)), Return))
                    else (db, Continue 0))
          else if StatusCode resp = 204 then (db, Continue 0)
          else if StatusCode resp = 429
          then (db, Continue (Sleep (retryAfterOf (RetryAfterHeader resp))))
          else (db, Continue 0))"

text \<open>A result that carries a verdict: status 200, a body that decodes, PROCESSED or INVALID.\<close>

definition is_verdict :: "http_result \<Rightarrow> bool" where
  "is_verdict res =
     (case res of
        GetFailed \<Rightarrow> False
      | Got resp \<Rightarrow>
          StatusCode resp = 200 \<and>
          (case Body resp of
             None \<Rightarrow> False
           | Some accrualResponse \<Rightarrow>
               rStatus accrualResponse = ''PROCESSED'' \<or> rStatus accrualResponse = ''INVALID''))"

text \<open>
  The worker loop is run against the cases its \<open>select\<close> takes, in order; the list is a
  finite prefix of what the runtime delivers. \<open>Exited\<close>: the goroutine has returned.
  \<open>Polling\<close>: it is back at its \<open>select\<close>, waiting.
\<close>

datatype select_case = PollCtxDone | TickerC http_result

datatype worker_state = Exited | Polling

text \<open>
  The variant with a deadline (\<open>pollCtx\<close> is \<open>context.WithTimeout(context.Background(),
  2 * time.Minute)\<close>). It hands \<open>ctx\<close>, the context of its caller, to the repository.
\<close>

fun PollOrderStatus ::
  "(rat \<Rightarrow> int option) \<Rightarrow> ctx_state \<Rightarrow> string \<Rightarrow> select_case list \<Rightarrow> database \<Rightarrow>
   database \<times> worker_state" where
  "PollOrderStatus toInteger ctx orderNumber [] db = (db, Polling)"
| "PollOrderStatus toInteger ctx orderNumber (PollCtxDone # cases) db = (db, Exited)"
| "PollOrderStatus toInteger ctx orderNumber (TickerC res # cases) db =
     (case pollOnce toInteger ctx orderNumber res db of
        (db1, Return) \<Rightarrow> (db1, Exited)
      | (db1, Continue p) \<Rightarrow> PollOrderStatus toInteger ctx orderNumber cases db1)"

text \<open>
  The variant without a deadline: \<open>pollCtx\<close> is \<open>context.Background()\<close>, whose \<open>Done()\<close>
  channel never delivers, so its \<open>select\<close> only ever takes \<open>case <-ticker.C\<close>. It hands
  \<open>pollCtx\<close> to the repository.
\<close>

fun PollOrderStatus_noDeadline ::
  "(rat \<Rightarrow> int option) \<Rightarrow> string \<Rightarrow> http_result list \<Rightarrow> database \<Rightarrow> database \<times> worker_state" where
  "PollOrderStatus_noDeadline toInteger orderNumber [] db = (db, Polling)"
| "PollOrderStatus_noDeadline toInteger orderNumber (res # ress) db =
     (case pollOnce toInteger Background orderNumber res db of
        (db1, Return) \<Rightarrow> (db1, Exited)
      | (db1, Continue p) \<Rightarrow> PollOrderStatus_noDeadline toInteger orderNumber ress db1)"


section \<open>Observations, invariant and operation sequences\<close>

text \<open>
  What the queries of the repository see: the identifier of a user
  (\<open>SELECT id FROM users WHERE username = $1\<close>), the owner of an order
  (\<open>SELECT user_id FROM orders WHERE order_number = $1\<close>), the status and the accrual of an
  order, and the identifier of the account whose balance the join selects.
\<close>

definition userIDOf :: "database \<Rightarrow> string \<Rightarrow> uuid option" where
  "userIDOf db username = map_option u_id (find (\<lambda>u. u_username u = username) (users db))"

definition ownerOf :: "database \<Rightarrow> string \<Rightarrow> uuid option" where
  "ownerOf db orderNumber =
     map_option o_user_id (find (\<lambda>r. o_order_number r = orderNumber) (orders db))"

definition statusOf :: "database \<Rightarrow> string \<Rightarrow> order_status option" where
  "statusOf db orderNumber =
     map_option o_status (find (\<lambda>r. o_order_number r = orderNumber) (orders db))"

definition accrualOf :: "database \<Rightarrow> string \<Rightarrow> int option" where
  "accrualOf db orderNumber =
     (case find (\<lambda>r. o_order_number r = orderNumber) (orders db) of
        None \<Rightarrow> None
      | Some r \<Rightarrow> o_accrual r)"

definition accountID :: "database \<Rightarrow> string \<Rightarrow> uuid option" where
  "accountID db username =
     (case joinUserBalance (users db) (user_balance db) username of
        [] \<Rightarrow> None
      | (u, ub) # _ \<Rightarrow> Some (u_id u))"

definition earnsOf :: "database \<Rightarrow> string \<Rightarrow> loyalty_transactions_row list" where
  "earnsOf db orderNumber =
     filter (\<lambda>t. t_transaction_type t = earn \<and> t_order_number t = orderNumber)
       (loyalty_transactions db)"

definition spendsOf :: "database \<Rightarrow> loyalty_transactions_row list" where
  "spendsOf db = filter (\<lambda>t. t_transaction_type t = spend) (loyalty_transactions db)"

text \<open>
  An amount with at most two decimals, and a number that a \<open>NUMERIC(10,2)\<close> column can
  hold: one that is stored as it is.
\<close>

definition two_decimals :: "rat \<Rightarrow> bool" where
  "two_decimals x = (of_int \<lfloor>x * 100\<rfloor> = x * 100)"

definition numeric_ok :: "rat \<Rightarrow> bool" where
  "numeric_ok x = (numeric_10_2 x = Some x)"

text \<open>A row of \<open>user_balance\<close> that the schema admits.\<close>

definition row_ok :: "user_balance_row \<Rightarrow> bool" where
  "row_ok r = (balance_check r \<and> numeric_ok (b_balance r) \<and> numeric_ok (b_total_spent r))"

text \<open>
  The invariant of the tables: every row of \<open>user_balance\<close> passes the two \<open>CHECK\<close>
  constraints and holds two numbers of \<open>NUMERIC(10,2)\<close>, no user has two rows, every row
  belongs to a row of \<open>users\<close> (the foreign key), and every order number fits
  \<open>VARCHAR(255)\<close>.
\<close>

definition consistent :: "database \<Rightarrow> bool" where
  "consistent db =
     (list_all balance_check (user_balance db) \<and>
      list_all (\<lambda>r. numeric_ok (b_balance r) \<and> numeric_ok (b_total_spent r)) (user_balance db) \<and>
      distinct (map b_user_id (user_balance db)) \<and>
      list_all (\<lambda>r. b_user_id r \<in> set (map u_id (users db))) (user_balance db) \<and>
      list_all (\<lambda>r. length (o_order_number r) \<le> 255) (orders db))"

text \<open>The calls that write to the database, as data, and sequences of them.\<close>

datatype operation =
    Registration ctx_state User uuid
  | Submission ctx_state string string
  | StatusUpdate ctx_state string string
  | Credit ctx_state string string "rat option"
  | Debit ctx_state OrderWithdrawal

fun exec ::
  "(string \<Rightarrow> string option) \<Rightarrow> (rat \<Rightarrow> int option) \<Rightarrow> database \<Rightarrow> operation \<Rightarrow> database" where
  "exec hp conv db (Registration ctx user newID) = fst (SetUser hp newID ctx db user)"
| "exec hp conv db (Submission ctx username orderNumber) = fst (AddOrder ctx db username orderNumber)"
| "exec hp conv db (StatusUpdate ctx orderNumber status) =
     fst (UpdateOrderStatus ctx db orderNumber status)"
| "exec hp conv db (Credit ctx orderNumber status accrual) =
     fst (UpdateOrderStatusAndAccrual conv ctx db orderNumber status accrual)"
| "exec hp conv db (Debit ctx orderWithdrawal) = fst (SpendPoints ctx db orderWithdrawal)"

fun run ::
  "(string \<Rightarrow> string option) \<Rightarrow> (rat \<Rightarrow> int option) \<Rightarrow> database \<Rightarrow> operation list \<Rightarrow> database" where
  "run hp conv db [] = db"
| "run hp conv db (op # ops) = run hp conv (exec hp conv db op) ops"



subsection \<open>Concrete states and inputs\<close>


text \<open>One conversion to \<open>INTEGER\<close>: the fraction is cut off, and the range is that of 32 bits.\<close>

definition int4Stub :: "rat \<Rightarrow> int option" where
  "int4Stub a =
     (let k = (if 0 \<le> a then \<lfloor>a\<rfloor> else - \<lfloor>- a\<rfloor>)
      in if - 2147483648 \<le> k \<and> k \<le> 2147483647 then Some k else None)"



definition db_alice :: database where
  "db_alice =
     \<lparr>users = [\<lparr>u_id = ''u1'', u_username = ''alice'', u_password_hash = ''#secret''\<rparr>],
      orders = [\<lparr>o_order_number = ''12345678903'', o_user_id = ''u1'', o_status = NEW,
                 o_accrual = None\<rparr>],
      user_balance = [\<lparr>b_user_id = ''u1'', b_balance = 50, b_total_spent = 0\<rparr>],
      loyalty_transactions = []\<rparr>"

definition db_two :: database where
  "db_two =
     \<lparr>users = [\<lparr>u_id = ''u1'', u_username = ''alice'', u_password_hash = ''#secret''\<rparr>,
               \<lparr>u_id = ''u2'', u_username = ''bob'', u_password_hash = ''#hunter2''\<rparr>],
      orders = [\<lparr>o_order_number = ''12345678903'', o_user_id = ''u1'', o_status = PROCESSED,
                 o_accrual = Some 500\<rparr>],
      user_balance = [\<lparr>b_user_id = ''u1'', b_balance = 500, b_total_spent = 0\<rparr>,
                      \<lparr>b_user_id = ''u2'', b_balance = 0, b_total_spent = 10\<rparr>],
      loyalty_transactions = [\<lparr>t_user_id = ''u1'', t_order_number = ''12345678903'',
                               t_points = 500, t_transaction_type = earn\<rparr>]\<rparr>"

text \<open>An order number of 302 digits that passes the Luhn checksum: 300 zeros, then 18.\<close>

definition longOrderNumber :: string where
  "longOrderNumber = replicate 300 CHR ''0'' @ ''18''"



definition processed500 :: http_result where
  "processed500 =
     Got \<lparr>StatusCode = 200,
          Body = Some \<lparr>rOrder = ''12345678903'', rStatus = ''PROCESSED'', rAccrual = Some 500\<rparr>,
          RetryAfterHeader = []\<rparr>"

definition processing :: http_result where
  "processing =
     Got \<lparr>StatusCode = 200,
          Body = Some \<lparr>rOrder = ''12345678903'', rStatus = ''PROCESSING'', rAccrual = None\<rparr>,
          RetryAfterHeader = []\<rparr>"

definition rateLimited :: "string \<Rightarrow> http_result" where
  "rateLimited h = Got \<lparr>StatusCode = 429, Body = None, RetryAfterHeader = h\<rparr>"

section \<open>Order-number validation: properties\<close>

lemma digit_code_char:
  "n = 48 \<or> n = 49 \<or> n = 50 \<or> n = 51 \<or> n = 52 \<or> n = 53 \<or> n = 54 \<or> n = 55 \<or> n = 56 \<or> n = 57
   \<Longrightarrow> (char_of (n :: nat) :: char) \<in> set ''0123456789''"
  by (elim disjE) (simp_all add: char_of_eq_iff)

lemma isDigitByte_iff: "isDigitByte c \<longleftrightarrow> c \<in> set ''0123456789''"
proof
  assume "isDigitByte c"
  then have "48 \<le> (of_char c :: nat)" "(of_char c :: nat) \<le> 57"
    by (simp_all add: isDigitByte_def)
  then have "(of_char c :: nat) = 48 \<or> (of_char c :: nat) = 49 \<or> (of_char c :: nat) = 50 \<or>
             (of_char c :: nat) = 51 \<or> (of_char c :: nat) = 52 \<or> (of_char c :: nat) = 53 \<or>
             (of_char c :: nat) = 54 \<or> (of_char c :: nat) = 55 \<or> (of_char c :: nat) = 56 \<or>
             (of_char c :: nat) = 57"
    by arith
  from digit_code_char [OF this] show "c \<in> set ''0123456789''"
    by simp
next
  assume "c \<in> set ''0123456789''"
  then show "isDigitByte c"
    by (auto simp: isDigitByte_def)
qed

lemma is_numeral_iff: "is_numeral s \<longleftrightarrow> s \<noteq> [] \<and> list_all isDigitByte s"
  unfolding is_numeral_def list_all_iff isDigitByte_iff by blast

lemma parseDigits_foldl:
  "parseDigits (int m) s = int (foldl (\<lambda>n c. 10 * n + numeral_digit c) m s)"
proof (induction s arbitrary: m)
  case Nil
  then show ?case by simp
next
  case (Cons c s)
  have eq: "int m * 10 + int (of_char c - 48) = int (10 * m + numeral_digit c)"
    by (simp add: numeral_digit_def)
  have "parseDigits (int m) (c # s) = parseDigits (int (10 * m + numeral_digit c)) s"
    by (simp only: parseDigits.simps eq)
  then show ?case using Cons.IH [of "10 * m + numeral_digit c"] by simp
qed

lemma Atoi_numeral:
  assumes "is_numeral s"
  shows "Atoi s = (if numeral_value s < 2 ^ 63 then Some (int (numeral_value s)) else None)"
proof -
  from assms obtain c cs where s: "s = c # cs" and all: "list_all isDigitByte (c # cs)"
    by (cases s) (auto simp: is_numeral_iff)
  then have c: "c \<noteq> CHR ''-''" "c \<noteq> CHR ''+''"
    by (auto simp: isDigitByte_def)
  have pd: "parseDigits 0 s = int (numeral_value s)"
    using parseDigits_foldl [of 0 s] by (simp add: numeral_value_def)
  have "(2 ^ 63 \<le> int (numeral_value s)) = (2 ^ 63 \<le> numeral_value s)"
    by (metis of_nat_le_iff of_nat_numeral of_nat_power)
  with s all c pd show ?thesis
    by (auto simp: Atoi_def Let_def)
qed

lemma byte_wrap_digit:
  assumes "48 \<le> x" "x \<le> 57"
  shows "((x :: nat) + 256 - 48) mod 256 = x - 48"
proof -
  obtain d where d: "x = 48 + d" "d \<le> 9"
    using assms by (intro that [of "x - 48"]) auto
  then show ?thesis by simp
qed

lemma byteMinusZero_digit:
  assumes "isDigitByte c"
  shows "byteMinusZero c = int (numeral_digit c)"
proof -
  from assms have "48 \<le> (of_char c :: nat)" "(of_char c :: nat) \<le> 57"
    by (simp_all add: isDigitByte_def)
  then show ?thesis
    by (simp only: byteMinusZero_def numeral_digit_def byte_wrap_digit)
qed

lemma luhnLoop_sum:
  "list_all isDigitByte cs \<Longrightarrow>
   luhnLoop cs acc (odd k) = acc + int (sum_list (map luhn_term (enumerate k cs)))"
proof (induction cs arbitrary: acc k)
  case Nil
  then show ?case by simp
next
  case (Cons c cs)
  from Cons.prems have c: "isDigitByte c" and cs: "list_all isDigitByte cs" by simp_all
  have step: "luhnLoop (c # cs) acc (odd k) = luhnLoop cs (acc + int (luhn_term (k, c))) (\<not> odd k)"
    using c by (cases "odd k") (auto simp: Let_def byteMinusZero_digit luhn_term_def mult.commute)
  have ih: "luhnLoop cs (acc + int (luhn_term (k, c))) (\<not> odd k) =
            acc + int (luhn_term (k, c)) + int (sum_list (map luhn_term (enumerate (Suc k) cs)))"
    using Cons.IH [OF cs, of "acc + int (luhn_term (k, c))" "Suc k"] by simp
  show ?case using step ih by simp
qed

lemma isValidLuhn_numeral:
  assumes "is_numeral s"
  shows "isValidLuhn s = (numeral_value s < 2 ^ 63 \<and> luhn_checksum_ok s)"
proof -
  from assms have "list_all isDigitByte (rev s)" by (simp add: is_numeral_iff)
  from luhnLoop_sum [OF this, of 0 0]
  have "luhnLoop (rev s) 0 False = int (luhn_total s)" by (simp add: luhn_total_def)
  moreover have "(int (luhn_total s) mod 10 = 0) = (luhn_total s mod 10 = 0)"
    by presburger
  ultimately show ?thesis
    using Atoi_numeral [OF assms]
    by (simp add: isValidLuhn_def isIntegerAtoi_def luhn_checksum_ok_def)
qed

lemma Atoi_None:
  assumes "\<not> is_numeral s" "\<not> is_signed_numeral s"
  shows "Atoi s = None"
proof (cases s)
  case Nil
  then show ?thesis by (simp add: Atoi_def)
next
  case (Cons c cs)
  with assms show ?thesis
    by (auto simp: Atoi_def Let_def is_numeral_iff is_signed_numeral_def)
qed

text \<open>
  C8 (as amended). For a decimal numeral string, \<open>isValidLuhn\<close> returns true exactly when
  its value fits a signed 64-bit integer (it is below \<open>2 ^ 63\<close>) and it passes the Luhn
  checksum. It returns false for every string that is neither a numeral nor a sign followed
  by a numeral. Whenever it returns false, \<open>SendOrderHandler\<close> answers 422, leaves the
  database as it was and starts no worker.
\<close>

theorem isValidLuhn_characterised:
  "(is_numeral s \<longrightarrow> isValidLuhn s = (numeral_value s < 2 ^ 63 \<and> luhn_checksum_ok s)) \<and>
   (\<not> is_numeral s \<and> \<not> is_signed_numeral s \<longrightarrow> \<not> isValidLuhn s) \<and>
   (\<not> isValidLuhn s \<longrightarrow> SendOrderHandler ctx db (Some s) claim = (db, 422, False))"
  using isValidLuhn_numeral [of s] Atoi_None [of s]
  by (auto simp: isValidLuhn_def isIntegerAtoi_def SendOrderHandler_def)

theorem isValidLuhn_characterised_witness:
  "is_numeral ''12345678903'' \<and> isValidLuhn ''12345678903'' \<and>
   \<not> is_numeral ''12a'' \<and> \<not> is_signed_numeral ''12a'' \<and> \<not> isValidLuhn ''12a'' \<and>
   SendOrderHandler CtxLive db_alice (Some ''12a'') (Some ''alice'') = (db_alice, 422, False)"
proof -
  have n: "is_numeral ''12345678903''" by (simp add: is_numeral_def)
  have v: "numeral_value ''12345678903'' < 2 ^ 63 \<and> luhn_checksum_ok ''12345678903''"
    by (simp add: numeral_value_def luhn_checksum_ok_def luhn_total_def luhn_term_def
        numeral_digit_def enumerate_eq_zip upt_rec)
  have m: "\<not> is_numeral ''12a'' \<and> \<not> is_signed_numeral ''12a''"
    by (simp add: is_numeral_def is_signed_numeral_def)
  show ?thesis
    using n v m isValidLuhn_characterised [of "''12345678903''"]
      isValidLuhn_characterised [of "''12a''" CtxLive db_alice "Some ''alice''"]
    by simp
qed

text \<open>
  C8 as stated fails: the 20-digit numeral 12345678901234567894 passes the Luhn checksum,
  but \<open>strconv.Atoi\<close> reports a range error for it and \<open>isValidLuhn\<close> returns false.
\<close>

theorem isValidLuhn_long_numeral_rejected:
  "is_numeral ''12345678901234567894'' \<and> luhn_checksum_ok ''12345678901234567894'' \<and>
   \<not> isValidLuhn ''12345678901234567894''"
  by (simp add: is_numeral_def luhn_checksum_ok_def luhn_total_def luhn_term_def
      numeral_digit_def enumerate_eq_zip upt_rec isValidLuhn_def isIntegerAtoi_def Atoi_def
      isDigitByte_def)

text \<open>
  A sign followed by digits also passes \<open>strconv.Atoi\<close>; the loop then takes the byte of
  the sign for a digit (253 for the minus sign), and some such strings are accepted.
\<close>

lemma isValidLuhn_signed: "\<not> is_numeral ''-3'' \<and> isValidLuhn ''-3''"
  by (simp add: is_numeral_def isValidLuhn_def isIntegerAtoi_def Atoi_def isDigitByte_def
      byteMinusZero_def)

section \<open>Column types: properties\<close>

lemma varchar_fits: "length s \<le> n \<Longrightarrow> varchar n s = Some s"
  by (simp add: varchar_def)

lemma varchar_Some_length: "varchar n s = Some stored \<Longrightarrow> length stored \<le> n"
  by (auto simp: varchar_def split: if_splits)

lemma longOrderNumber_valid: "isValidLuhn longOrderNumber"
  by code_simp

lemma longOrderNumber_refused: "varchar 255 longOrderNumber = None"
  by code_simp

lemma roundHalfAway_of_int: "roundHalfAway (of_int k) = k"
  by (simp add: roundHalfAway_def) linarith

lemma roundHalfAway_mono: "x \<le> y \<Longrightarrow> roundHalfAway x \<le> roundHalfAway y"
  unfolding roundHalfAway_def by (auto intro: floor_mono) linarith+

lemma roundHalfAway_nonneg: "0 \<le> x \<Longrightarrow> 0 \<le> roundHalfAway x"
  by (simp add: roundHalfAway_def)

lemma two_decimals_int: "two_decimals x \<longleftrightarrow> (\<exists>k. x = of_int k / 100)"
  unfolding two_decimals_def
proof
  assume e: "of_int \<lfloor>x * 100\<rfloor> = x * 100"
  have "x = x * 100 / 100" by simp
  also have "\<dots> = of_int \<lfloor>x * 100\<rfloor> / 100" by (simp only: e)
  finally show "\<exists>k. x = of_int k / 100" ..
next
  assume "\<exists>k. x = of_int k / 100"
  then obtain k where "x = of_int k / 100" ..
  then show "of_int \<lfloor>x * 100\<rfloor> = x * 100" by simp
qed

lemma round2_two_decimals: "two_decimals x \<Longrightarrow> round2 x = x"
  by (auto simp: two_decimals_int round2_def roundHalfAway_of_int)

lemma two_decimals_round2: "two_decimals (round2 x)"
  unfolding two_decimals_int round2_def by blast

lemma round2_mono: "x \<le> y \<Longrightarrow> round2 x \<le> round2 y"
  unfolding round2_def using roundHalfAway_mono [of "x * 100" "y * 100"]
  by (simp add: divide_right_mono)

lemma round2_nonneg: "0 \<le> x \<Longrightarrow> 0 \<le> round2 x"
  unfolding round2_def using roundHalfAway_nonneg [of "x * 100"] by simp

lemma two_decimals_add: "two_decimals x \<Longrightarrow> two_decimals y \<Longrightarrow> two_decimals (x + y)"
  unfolding two_decimals_int
proof -
  assume "\<exists>k. x = of_int k / 100" "\<exists>k. y = of_int k / 100"
  then obtain k l where "x = of_int k / 100" "y = of_int l / 100" by blast
  then have "x + y = of_int (k + l) / 100" by (simp add: add_divide_distrib)
  then show "\<exists>k. x + y = of_int k / 100" ..
qed

lemma two_decimals_diff: "two_decimals x \<Longrightarrow> two_decimals y \<Longrightarrow> two_decimals (x - y)"
  unfolding two_decimals_int
proof -
  assume "\<exists>k. x = of_int k / 100" "\<exists>k. y = of_int k / 100"
  then obtain k l where "x = of_int k / 100" "y = of_int l / 100" by blast
  then have "x - y = of_int (k - l) / 100" by (simp add: diff_divide_distrib)
  then show "\<exists>k. x - y = of_int k / 100" ..
qed

lemma numeric_ok_iff: "numeric_ok x \<longleftrightarrow> two_decimals x \<and> \<bar>x\<bar> < 100000000"
proof
  assume "numeric_ok x"
  then have r: "round2 x = x" and "\<not> 100000000 \<le> \<bar>round2 x\<bar>"
    by (auto simp: numeric_ok_def numeric_10_2_def split: if_splits)
  with two_decimals_round2 [of x] show "two_decimals x \<and> \<bar>x\<bar> < 100000000" by simp
next
  assume "two_decimals x \<and> \<bar>x\<bar> < 100000000"
  then show "numeric_ok x" by (simp add: numeric_ok_def numeric_10_2_def round2_two_decimals)
qed

lemma numeric_ok_0: "numeric_ok 0"
  by (simp add: numeric_ok_iff two_decimals_def)

lemma numeric_10_2_Some: "numeric_10_2 x = Some y \<Longrightarrow> y = round2 x \<and> numeric_ok y"
  by (auto simp: numeric_10_2_def numeric_ok_iff two_decimals_round2 split: if_splits)

lemma numeric_10_2_between:
  assumes "numeric_ok b" "0 \<le> x" "x \<le> b"
  shows "numeric_10_2 x = Some (round2 x)"
proof -
  from assms(1) have b: "round2 b = b" "\<bar>b\<bar> < 100000000"
    by (simp_all add: numeric_ok_iff round2_two_decimals)
  from round2_mono [OF assms(3)] b have "round2 x \<le> b" by simp
  moreover from round2_nonneg [OF assms(2)] have "0 \<le> round2 x" .
  ultimately show ?thesis using b by (simp add: numeric_10_2_def)
qed

text \<open>A number with two decimals below \<open>10 ^ 8\<close> is stored as it is.\<close>

lemma numeric_10_2_exact:
  "two_decimals x \<Longrightarrow> \<bar>x\<bar> < 100000000 \<Longrightarrow> numeric_10_2 x = Some x"
  using numeric_ok_iff [of x] by (simp add: numeric_ok_def)

text \<open>The rows that the two \<open>UPDATE\<close> statements of \<open>user_balance\<close> write.\<close>

lemma debitRow_Some:
  assumes "debitRow s r = Some r'"
  shows "b_user_id r' = b_user_id r \<and> balance_check r' \<and>
         numeric_10_2 (b_balance r - s) = Some (b_balance r') \<and>
         numeric_10_2 (b_total_spent r + s) = Some (b_total_spent r')"
  using assms by (auto simp: debitRow_def Let_def split: option.splits if_splits)

lemma creditRow_Some:
  assumes "creditRow a r = Some r'"
  shows "b_user_id r' = b_user_id r \<and> balance_check r' \<and>
         numeric_10_2 (b_balance r + a) = Some (b_balance r') \<and>
         b_total_spent r' = b_total_spent r"
  using assms by (auto simp: creditRow_def Let_def split: option.splits if_splits)

lemma updateRows_rel:
  "updateRows P f rs = Some rs' \<Longrightarrow>
   list_all2 (\<lambda>r r'. (P r \<longrightarrow> f r = Some r') \<and> (\<not> P r \<longrightarrow> r' = r)) rs rs'"
proof (induction rs arbitrary: rs')
  case Nil
  then show ?case by simp
next
  case (Cons r rs)
  from Cons.prems obtain x xs where
    x: "(if P r then f r else Some r) = Some x" and xs: "updateRows P f rs = Some xs"
    and eq: "rs' = x # xs"
    by (auto split: option.splits)
  from x have "(P r \<longrightarrow> f r = Some x) \<and> (\<not> P r \<longrightarrow> x = r)"
    by (auto split: if_splits)
  with Cons.IH [OF xs] show ?case unfolding eq by simp
qed

lemma updateRows_eq:
  "updateRows P f rs =
     (if \<forall>r \<in> set rs. P r \<longrightarrow> f r \<noteq> None
      then Some (map (\<lambda>r. if P r then the (f r) else r) rs) else None)"
  by (induction rs) (auto split: option.splits)

lemma unique_row:
  assumes "distinct (map b_user_id ubs)" "ub \<in> set ubs" "r \<in> set ubs"
    "b_user_id r = b_user_id ub"
  shows "r = ub"
  using assms by (auto simp: distinct_map dest: inj_onD)

lemma updateRows_unique:
  assumes d: "distinct (map b_user_id ubs)" and mem: "ub \<in> set ubs"
  shows "updateRows (\<lambda>r. b_user_id r = b_user_id ub) f ubs =
         map_option (\<lambda>ub'. map (\<lambda>r. if b_user_id r = b_user_id ub then ub' else r) ubs) (f ub)"
proof -
  have only: "r = ub" if "r \<in> set ubs" "b_user_id r = b_user_id ub" for r
    using unique_row [OF d mem that] .
  have all: "(\<forall>r \<in> set ubs. b_user_id r = b_user_id ub \<longrightarrow> f r \<noteq> None) \<longleftrightarrow> f ub \<noteq> None"
    using only mem by auto
  have m: "map (\<lambda>r. if b_user_id r = b_user_id ub then the (f r) else r) ubs =
           map (\<lambda>r. if b_user_id r = b_user_id ub then the (f ub) else r) ubs"
    by (rule map_cong) (auto dest: only)
  show ?thesis
    unfolding updateRows_eq all m by (cases "f ub") simp_all
qed

section \<open>Order submission: properties\<close>

lemma find_append_new:
  "find P (xs @ [y]) = (case find P xs of None \<Rightarrow> (if P y then Some y else None) | Some x \<Rightarrow> Some x)"
  by (induction xs) simp_all

lemma AddOrder_error_unchanged:
  "snd (AddOrder ctx db username n) \<noteq> None \<Longrightarrow> fst (AddOrder ctx db username n) = db"
  by (simp add: AddOrder_def Let_def split: option.splits if_splits)

lemma AddOrder_user_missing:
  "userIDOf db username = None \<Longrightarrow> AddOrder CtxLive db username n = (db, Some ErrUserNotFound)"
  by (simp add: userIDOf_def AddOrder_def split: option.splits)

lemma AddOrder_same_owner:
  "userIDOf db username = Some uid \<Longrightarrow> ownerOf db n = Some uid \<Longrightarrow>
   AddOrder CtxLive db username n = (db, Some ErrOrderAlreadyExists)"
  by (auto simp: userIDOf_def ownerOf_def AddOrder_def split: option.splits)

lemma AddOrder_other_owner:
  "userIDOf db username = Some uid \<Longrightarrow> ownerOf db n = Some other \<Longrightarrow> other \<noteq> uid \<Longrightarrow>
   AddOrder CtxLive db username n = (db, Some ErrOrderOwnedByAnotherUser)"
  by (auto simp: userIDOf_def ownerOf_def AddOrder_def split: option.splits)

lemma AddOrder_accept:
  assumes u: "userIDOf db username = Some uid" and o: "ownerOf db n = None"
    and len: "length n \<le> 255"
  shows "AddOrder CtxLive db username n =
     (db\<lparr>orders := orders db @ [\<lparr>o_order_number = n, o_user_id = uid, o_status = NEW,
                                  o_accrual = None\<rparr>]\<rparr>, None)"
proof -
  from o have none: "find (\<lambda>r. o_order_number r = n) (orders db) = None"
    by (simp add: ownerOf_def)
  then have new: "n \<notin> set (map o_order_number (orders db))"
    by (auto simp: find_None_iff)
  from u obtain row where "find (\<lambda>u. u_username u = username) (users db) = Some row"
    "u_id row = uid"
    by (auto simp: userIDOf_def)
  with none new varchar_fits [OF len] show ?thesis
    by (simp add: AddOrder_def)
qed

lemma AddOrder_too_long:
  assumes u: "userIDOf db username = Some uid" and o: "ownerOf db n = None"
    and long: "varchar 255 n = None"
  shows "AddOrder CtxLive db username n = (db, Some (Wrapped ''error inserting order''))"
proof -
  from o have none: "find (\<lambda>r. o_order_number r = n) (orders db) = None"
    by (simp add: ownerOf_def)
  from u obtain row where "find (\<lambda>u. u_username u = username) (users db) = Some row"
    by (auto simp: userIDOf_def)
  with none long show ?thesis
    by (simp add: AddOrder_def)
qed

lemma AddOrder_four_outcomes:
  "length n \<le> 255 \<Longrightarrow>
   snd (AddOrder CtxLive db username n) \<in>
     {None, Some ErrOrderAlreadyExists, Some ErrOrderOwnedByAnotherUser, Some ErrUserNotFound}"
  by (auto simp: AddOrder_def Let_def varchar_fits find_None_iff split: option.splits)

lemma resubmit_fixed:
  assumes "AddOrder CtxLive d username n = (d, e)"
  shows "((\<lambda>x. fst (AddOrder CtxLive x username n)) ^^ k) d = d"
  using assms by (induction k) simp_all

text \<open>
  C7 (as amended). Whatever the context and the arguments, \<open>AddOrder\<close> returns the
  database as it was whenever it returns an error. With a live context and an order number
  of at most 255 characters it ends in one of four ways. When the user is unknown it
  returns \<open>ErrUserNotFound\<close>; when the user already owns the order number it returns
  \<open>ErrOrderAlreadyExists\<close>; when another user owns it, \<open>ErrOrderOwnedByAnotherUser\<close>. When
  the user exists and nobody owns the number, one row with status NEW is appended to
  \<open>orders\<close> and nothing else changes; from then on every further submission of that number
  by that user returns \<open>ErrOrderAlreadyExists\<close> and leaves the database as it is. There
  are two more ways to end, both with an error that is none of the three: a new order
  number that the column \<open>order_number\<close> refuses, and a context that is done.
\<close>

theorem AddOrder_outcomes:
  "(snd (AddOrder ctx db username n) \<noteq> None \<longrightarrow> fst (AddOrder ctx db username n) = db) \<and>
   (length n \<le> 255 \<longrightarrow>
      snd (AddOrder CtxLive db username n) \<in>
        {None, Some ErrOrderAlreadyExists, Some ErrOrderOwnedByAnotherUser, Some ErrUserNotFound}) \<and>
   (userIDOf db username = None \<longrightarrow>
      AddOrder CtxLive db username n = (db, Some ErrUserNotFound)) \<and>
   (userIDOf db username = Some uid \<and> ownerOf db n = Some uid \<longrightarrow>
      AddOrder CtxLive db username n = (db, Some ErrOrderAlreadyExists)) \<and>
   (userIDOf db username = Some uid \<and> ownerOf db n = Some other \<and> other \<noteq> uid \<longrightarrow>
      AddOrder CtxLive db username n = (db, Some ErrOrderOwnedByAnotherUser)) \<and>
   (userIDOf db username = Some uid \<and> ownerOf db n = None \<and> length n \<le> 255 \<longrightarrow>
      (let db1 = db\<lparr>orders := orders db @ [\<lparr>o_order_number = n, o_user_id = uid,
                                               o_status = NEW, o_accrual = None\<rparr>]\<rparr>
       in AddOrder CtxLive db username n = (db1, None) \<and>
          (\<forall>k. AddOrder CtxLive (((\<lambda>d. fst (AddOrder CtxLive d username n)) ^^ k) db1) username n
                 = (db1, Some ErrOrderAlreadyExists)))) \<and>
   (userIDOf db username = Some uid \<and> ownerOf db n = None \<and> varchar 255 n = None \<longrightarrow>
      AddOrder CtxLive db username n = (db, Some (Wrapped ''error inserting order''))) \<and>
   AddOrder CtxDone db username n = (db, Some (Wrapped ''error getting user ID''))"
proof (intro conjI impI)
  assume a: "userIDOf db username = Some uid \<and> ownerOf db n = None \<and> length n \<le> 255"
  define db1 where "db1 = db\<lparr>orders := orders db @ [\<lparr>o_order_number = n, o_user_id = uid,
                                               o_status = NEW, o_accrual = None\<rparr>]\<rparr>"
  have u1: "userIDOf db1 username = Some uid"
    using a by (simp add: db1_def userIDOf_def)
  have o1: "ownerOf db1 n = Some uid"
    using a by (simp add: db1_def ownerOf_def find_append_new split: option.splits)
  have again: "AddOrder CtxLive db1 username n = (db1, Some ErrOrderAlreadyExists)"
    by (rule AddOrder_same_owner [OF u1 o1])
  have "\<forall>k. AddOrder CtxLive (((\<lambda>d. fst (AddOrder CtxLive d username n)) ^^ k) db1) username n
                 = (db1, Some ErrOrderAlreadyExists)"
    using resubmit_fixed [OF again] again by simp
  moreover have "AddOrder CtxLive db username n = (db1, None)"
    using a AddOrder_accept [of db username uid n] by (simp add: db1_def)
  ultimately show "let db1 = db\<lparr>orders := orders db @ [\<lparr>o_order_number = n, o_user_id = uid,
                                               o_status = NEW, o_accrual = None\<rparr>]\<rparr>
       in AddOrder CtxLive db username n = (db1, None) \<and>
          (\<forall>k. AddOrder CtxLive (((\<lambda>d. fst (AddOrder CtxLive d username n)) ^^ k) db1) username n
                 = (db1, Some ErrOrderAlreadyExists))"
    by (simp add: db1_def Let_def)
next
  assume "length n \<le> 255"
  then show "snd (AddOrder CtxLive db username n) \<in>
     {None, Some ErrOrderAlreadyExists, Some ErrOrderOwnedByAnotherUser, Some ErrUserNotFound}"
    by (rule AddOrder_four_outcomes)
next
  assume "snd (AddOrder ctx db username n) \<noteq> None"
  then show "fst (AddOrder ctx db username n) = db" by (rule AddOrder_error_unchanged)
next
  show "AddOrder CtxDone db username n = (db, Some (Wrapped ''error getting user ID''))"
    by (simp add: AddOrder_def)
qed (simp_all add: AddOrder_user_missing AddOrder_same_owner AddOrder_other_owner
      AddOrder_too_long)

text \<open>
  The four outcomes on a database with two users and one order, then an order number of
  302 digits and a context that is done.
\<close>

theorem AddOrder_outcomes_witness:
  "AddOrder CtxLive db_two ''carol'' ''79927398713'' = (db_two, Some ErrUserNotFound) \<and>
   AddOrder CtxLive db_two ''alice'' ''12345678903'' = (db_two, Some ErrOrderAlreadyExists) \<and>
   AddOrder CtxLive db_two ''bob'' ''12345678903'' = (db_two, Some ErrOrderOwnedByAnotherUser) \<and>
   AddOrder CtxLive db_two ''bob'' ''79927398713'' =
     (db_two\<lparr>orders := orders db_two @ [\<lparr>o_order_number = ''79927398713'', o_user_id = ''u2'',
                                          o_status = NEW, o_accrual = None\<rparr>]\<rparr>, None) \<and>
   AddOrder CtxLive db_two ''bob'' longOrderNumber
     = (db_two, Some (Wrapped ''error inserting order'')) \<and>
   AddOrder CtxDone db_two ''bob'' ''79927398713''
     = (db_two, Some (Wrapped ''error getting user ID''))"
proof -
  have h: "userIDOf db_two ''carol'' = None" "userIDOf db_two ''alice'' = Some ''u1''"
    "userIDOf db_two ''bob'' = Some ''u2''" "ownerOf db_two ''12345678903'' = Some ''u1''"
    "ownerOf db_two ''79927398713'' = None" "''u1'' \<noteq> ''u2''"
    "length ''79927398713'' \<le> 255"
    by (simp_all add: userIDOf_def ownerOf_def db_two_def)
  have l: "ownerOf db_two longOrderNumber = None"
    by (simp add: ownerOf_def db_two_def longOrderNumber_def)
  show ?thesis
    using h l longOrderNumber_refused
      AddOrder_outcomes [of CtxLive db_two "''carol''" "''79927398713''"]
      AddOrder_outcomes [of CtxLive db_two "''alice''" "''12345678903''" "''u1''"]
      AddOrder_outcomes [of CtxLive db_two "''bob''" "''12345678903''" "''u2''" "''u1''"]
      AddOrder_outcomes [of CtxLive db_two "''bob''" "''79927398713''" "''u2''"]
      AddOrder_outcomes [of CtxLive db_two "''bob''" longOrderNumber "''u2''"]
    by (simp add: Let_def)
qed

text \<open>
  C7 as stated fails: the order number of 302 digits passes \<open>isValidLuhn\<close>, its user
  exists and nobody owns it, but the column \<open>order_number\<close> is \<open>VARCHAR(255)\<close>. The
  \<open>INSERT\<close> is refused and \<open>AddOrder\<close> returns an error that is none of the three;
  \<open>SendOrderHandler\<close> answers 500.
\<close>

theorem AddOrder_long_order_number:
  "isValidLuhn longOrderNumber \<and>
   userIDOf db_alice ''alice'' = Some ''u1'' \<and> ownerOf db_alice longOrderNumber = None \<and>
   AddOrder CtxLive db_alice ''alice'' longOrderNumber
     = (db_alice, Some (Wrapped ''error inserting order'')) \<and>
   SendOrderHandler CtxLive db_alice (Some longOrderNumber) (Some ''alice'') = (db_alice, 500, False)"
proof -
  have u: "userIDOf db_alice ''alice'' = Some ''u1''"
    by (simp add: userIDOf_def db_alice_def)
  have o: "ownerOf db_alice longOrderNumber = None"
    by (simp add: ownerOf_def db_alice_def longOrderNumber_def)
  have a: "AddOrder CtxLive db_alice ''alice'' longOrderNumber
     = (db_alice, Some (Wrapped ''error inserting order''))"
    by (rule AddOrder_too_long [OF u o longOrderNumber_refused])
  have ne: "length longOrderNumber \<noteq> 0" by (simp add: longOrderNumber_def)
  show ?thesis
    using u o a ne longOrderNumber_valid by (simp add: SendOrderHandler_def)
qed

section \<open>Invariants of the tables\<close>

text \<open>What each call can do to \<open>users\<close>, \<open>user_balance\<close> and the order numbers.\<close>

lemma map_order_numbers:
  assumes "\<And>r. o_order_number (g r) = o_order_number r"
  shows "map o_order_number (map g rs) = map o_order_number rs"
  using assms by simp

lemma AddOrder_balances:
  "users (fst (AddOrder ctx db username n)) = users db \<and>
   user_balance (fst (AddOrder ctx db username n)) = user_balance db \<and>
   (orders (fst (AddOrder ctx db username n)) = orders db \<or>
    (\<exists>row. orders (fst (AddOrder ctx db username n)) = orders db @ [row] \<and>
           length (o_order_number row) \<le> 255))"
  by (auto simp: AddOrder_def Let_def dest: varchar_Some_length split: option.splits)

lemma UpdateOrderStatus_balances:
  "users (fst (UpdateOrderStatus ctx db n status)) = users db \<and>
   user_balance (fst (UpdateOrderStatus ctx db n status)) = user_balance db \<and>
   map o_order_number (orders (fst (UpdateOrderStatus ctx db n status))) =
     map o_order_number (orders db)"
proof -
  have "map o_order_number (map (\<lambda>r. if o_order_number r = n then r\<lparr>o_status := st\<rparr> else r) rs)
        = map o_order_number rs" for st rs
    by (rule map_order_numbers) simp
  then show ?thesis
    by (simp add: UpdateOrderStatus_def split: option.splits)
qed

lemma Credit_balances:
  "users (fst (UpdateOrderStatusAndAccrual conv ctx db n status accrual)) = users db \<and>
   map o_order_number (orders (fst (UpdateOrderStatusAndAccrual conv ctx db n status accrual))) =
     map o_order_number (orders db) \<and>
   (user_balance (fst (UpdateOrderStatusAndAccrual conv ctx db n status accrual)) = user_balance db \<or>
    (\<exists>uid a. updateRows (\<lambda>r. b_user_id r = uid) (creditRow a) (user_balance db) =
              Some (user_balance (fst (UpdateOrderStatusAndAccrual conv ctx db n status accrual)))))"
proof -
  have m: "map o_order_number
             (map (\<lambda>r. if o_order_number r = n then r\<lparr>o_status := st, o_accrual := k\<rparr> else r) rs)
           = map o_order_number rs" for st k rs
    by (rule map_order_numbers) simp
  show ?thesis
    unfolding UpdateOrderStatusAndAccrual_def Let_def
    by (auto simp: m split: option.splits prod.splits)
qed

lemma SpendPoints_balances:
  "users (fst (SpendPoints ctx db w)) = users db \<and>
   orders (fst (SpendPoints ctx db w)) = orders db \<and>
   (user_balance (fst (SpendPoints ctx db w)) = user_balance db \<or>
    (\<exists>uid. updateRows (\<lambda>r. b_user_id r = uid) (debitRow (wSum w)) (user_balance db) =
            Some (user_balance (fst (SpendPoints ctx db w)))))"
  by (auto simp: SpendPoints_def Let_def split: option.splits list.splits)

lemma SetUser_balances:
  "(fst (SetUser hp newID ctx db user) = db \<and> snd (SetUser hp newID ctx db user) \<noteq> None) \<or>
   (\<exists>name h. fst (SetUser hp newID ctx db user) =
           db\<lparr>users := users db @ [\<lparr>u_id = newID, u_username = name, u_password_hash = h\<rparr>],
               user_balance := user_balance db @
                 [\<lparr>b_user_id = newID, b_balance = 0, b_total_spent = 0\<rparr>]\<rparr> \<and>
         snd (SetUser hp newID ctx db user) = None \<and>
         newID \<notin> set (map u_id (users db)) \<and>
         varchar 50 (Username user) = Some name \<and>
         name \<notin> set (map u_username (users db)))"
  by (auto simp: SetUser_def checkUserExists_def split: option.splits)

lemma list_all2_map_eq:
  assumes "list_all2 R xs ys" and "\<And>x y. R x y \<Longrightarrow> f y = f x"
  shows "map f ys = map f xs"
  using assms by (induction rule: list_all2_induct) simp_all

lemma list_all2_list_all:
  assumes "list_all2 R xs ys" and "list_all G xs" and "\<And>x y. R x y \<Longrightarrow> G x \<Longrightarrow> G y"
  shows "list_all G ys"
  using assms by (induction rule: list_all2_induct) simp_all

lemma consistent_rows: "consistent db \<Longrightarrow> list_all row_ok (user_balance db)"
  by (auto simp: consistent_def row_ok_def list_all_iff)

lemma consistent_row:
  "consistent db \<Longrightarrow> r \<in> set (user_balance db) \<Longrightarrow>
   0 \<le> b_balance r \<and> 0 \<le> b_total_spent r \<and> numeric_ok (b_balance r) \<and> numeric_ok (b_total_spent r)"
  by (auto simp: consistent_def list_all_iff balance_check_def)

lemma consistent_update:
  assumes c: "consistent db"
    and rel: "list_all2 R (user_balance db) (user_balance db')"
    and keep: "\<And>r r'. R r r' \<Longrightarrow> b_user_id r' = b_user_id r"
    and good: "\<And>r r'. R r r' \<Longrightarrow> row_ok r \<Longrightarrow> row_ok r'"
    and us: "users db' = users db"
    and os: "map o_order_number (orders db') = map o_order_number (orders db)"
  shows "consistent db'"
proof -
  have ids: "map b_user_id (user_balance db') = map b_user_id (user_balance db)"
    using rel keep by (rule list_all2_map_eq)
  have ok: "list_all row_ok (user_balance db')"
    using rel consistent_rows [OF c] good by (rule list_all2_list_all)
  have d: "distinct (map b_user_id (user_balance db'))"
    using c unfolding ids by (simp add: consistent_def)
  have "set (map b_user_id (user_balance db')) \<subseteq> set (map u_id (users db))"
    using c unfolding ids by (auto simp: consistent_def list_all_iff)
  then have fk: "list_all (\<lambda>r. b_user_id r \<in> set (map u_id (users db'))) (user_balance db')"
    unfolding us by (auto simp: list_all_iff)
  have "list_all (\<lambda>s. length s \<le> 255) (map o_order_number (orders db))"
    using c by (simp add: consistent_def list_all_iff)
  then have "list_all (\<lambda>s. length s \<le> 255) (map o_order_number (orders db'))"
    unfolding os .
  then have len: "list_all (\<lambda>r. length (o_order_number r) \<le> 255) (orders db')"
    by (simp add: list_all_iff)
  from ok have "list_all balance_check (user_balance db')"
    and "list_all (\<lambda>r. numeric_ok (b_balance r) \<and> numeric_ok (b_total_spent r)) (user_balance db')"
    by (auto simp: row_ok_def list_all_iff)
  with d fk len show ?thesis unfolding consistent_def by blast
qed

lemma consistent_same:
  "consistent db \<Longrightarrow> users db' = users db \<Longrightarrow> user_balance db' = user_balance db \<Longrightarrow>
   map o_order_number (orders db') = map o_order_number (orders db) \<Longrightarrow> consistent db'"
proof -
  assume c: "consistent db" and us: "users db' = users db"
    and ubs: "user_balance db' = user_balance db"
    and os: "map o_order_number (orders db') = map o_order_number (orders db)"
  have "list_all2 (=) (user_balance db) (user_balance db')"
    unfolding ubs by (simp add: list_all2_same)
  then show "consistent db'"
    by (rule consistent_update [OF c _ _ _ us os]) simp_all
qed

lemma consistent_new_order:
  assumes c: "consistent db" and us: "users db' = users db"
    and ubs: "user_balance db' = user_balance db"
    and os: "orders db' = orders db @ [row]" and len: "length (o_order_number row) \<le> 255"
  shows "consistent db'"
  using c len unfolding consistent_def us ubs os by simp

lemma consistent_register:
  assumes c: "consistent db" and new: "newID \<notin> set (map u_id (users db))"
  shows "consistent (db\<lparr>users := users db @ [\<lparr>u_id = newID, u_username = name, u_password_hash = h\<rparr>],
                        user_balance := user_balance db @
                          [\<lparr>b_user_id = newID, b_balance = 0, b_total_spent = 0\<rparr>]\<rparr>)"
proof -
  from c have fk: "\<forall>r \<in> set (user_balance db). b_user_id r \<in> set (map u_id (users db))"
    by (simp add: consistent_def list_all_iff)
  with new have "newID \<notin> set (map b_user_id (user_balance db))" by auto
  with c fk show ?thesis
    by (auto simp: consistent_def list_all_iff balance_check_def numeric_ok_0)
qed

lemma debit_row_ok:
  assumes "(P r \<longrightarrow> debitRow s r = Some r') \<and> (\<not> P r \<longrightarrow> r' = r)" "row_ok r"
  shows "row_ok r'"
proof (cases "P r")
  case True
  with assms(1) have "debitRow s r = Some r'" by simp
  from debitRow_Some [OF this] show ?thesis
    by (auto simp: row_ok_def dest: numeric_10_2_Some)
next
  case False
  with assms show ?thesis by simp
qed

lemma credit_row_ok:
  assumes "(P r \<longrightarrow> creditRow a r = Some r') \<and> (\<not> P r \<longrightarrow> r' = r)" "row_ok r"
  shows "row_ok r'"
proof (cases "P r")
  case True
  with assms(1) have "creditRow a r = Some r'" by simp
  from creditRow_Some [OF this] assms(2) show ?thesis
    by (auto simp: row_ok_def dest: numeric_10_2_Some)
next
  case False
  with assms show ?thesis by simp
qed

lemma exec_consistent: "consistent db \<Longrightarrow> consistent (exec hp conv db op)"
proof (cases op)
  case (Registration ctx user newID)
  assume c: "consistent db"
  from SetUser_balances [of hp newID ctx db user] show ?thesis
  proof
    assume "fst (SetUser hp newID ctx db user) = db \<and> snd (SetUser hp newID ctx db user) \<noteq> None"
    with c Registration show ?thesis by simp
  next
    assume "\<exists>name h. fst (SetUser hp newID ctx db user) =
           db\<lparr>users := users db @ [\<lparr>u_id = newID, u_username = name, u_password_hash = h\<rparr>],
               user_balance := user_balance db @
                 [\<lparr>b_user_id = newID, b_balance = 0, b_total_spent = 0\<rparr>]\<rparr> \<and>
         snd (SetUser hp newID ctx db user) = None \<and>
         newID \<notin> set (map u_id (users db)) \<and>
         varchar 50 (Username user) = Some name \<and>
         name \<notin> set (map u_username (users db))"
    with c Registration consistent_register [OF c] show ?thesis by auto
  qed
next
  case (Submission ctx username n)
  assume c: "consistent db"
  let ?d = "fst (AddOrder ctx db username n)"
  from AddOrder_balances [of ctx db username n]
  have us: "users ?d = users db" and ubs: "user_balance ?d = user_balance db"
    and alt: "orders ?d = orders db \<or>
      (\<exists>row. orders ?d = orders db @ [row] \<and> length (o_order_number row) \<le> 255)"
    by blast+
  from alt have "consistent ?d"
  proof
    assume "orders ?d = orders db"
    with c us ubs show ?thesis by (simp add: consistent_same)
  next
    assume "\<exists>row. orders ?d = orders db @ [row] \<and> length (o_order_number row) \<le> 255"
    then obtain row where "orders ?d = orders db @ [row]" "length (o_order_number row) \<le> 255"
      by blast
    with c us ubs show ?thesis by (rule consistent_new_order)
  qed
  with Submission show ?thesis by simp
next
  case (StatusUpdate ctx n status)
  assume "consistent db"
  with StatusUpdate UpdateOrderStatus_balances [of ctx db n status] show ?thesis
    by (simp add: consistent_same)
next
  case (Credit ctx n status accrual)
  assume c: "consistent db"
  let ?d = "fst (UpdateOrderStatusAndAccrual conv ctx db n status accrual)"
  from Credit_balances [of conv ctx db n status accrual]
  have us: "users ?d = users db"
    and os: "map o_order_number (orders ?d) = map o_order_number (orders db)"
    and alt: "user_balance ?d = user_balance db \<or>
      (\<exists>uid a. updateRows (\<lambda>r. b_user_id r = uid) (creditRow a) (user_balance db) =
                Some (user_balance ?d))"
    by blast+
  from alt have "consistent ?d"
  proof
    assume "user_balance ?d = user_balance db"
    with c us os show ?thesis by (simp add: consistent_same)
  next
    assume "\<exists>uid a. updateRows (\<lambda>r. b_user_id r = uid) (creditRow a) (user_balance db) =
                Some (user_balance ?d)"
    then obtain uid a where
      "updateRows (\<lambda>r. b_user_id r = uid) (creditRow a) (user_balance db) = Some (user_balance ?d)"
      by blast
    from updateRows_rel [OF this] show ?thesis
    proof (rule consistent_update [OF c _ _ _ us os])
      fix r r'
      assume "(b_user_id r = uid \<longrightarrow> creditRow a r = Some r') \<and> (b_user_id r \<noteq> uid \<longrightarrow> r' = r)"
      then show "b_user_id r' = b_user_id r"
        by (cases "b_user_id r = uid") (auto dest: creditRow_Some)
    next
      fix r r'
      assume "(b_user_id r = uid \<longrightarrow> creditRow a r = Some r') \<and> (b_user_id r \<noteq> uid \<longrightarrow> r' = r)"
        and "row_ok r"
      then show "row_ok r'" by (rule credit_row_ok)
    qed
  qed
  with Credit show ?thesis by simp
next
  case (Debit ctx w)
  assume c: "consistent db"
  let ?d = "fst (SpendPoints ctx db w)"
  from SpendPoints_balances [of ctx db w]
  have us: "users ?d = users db"
    and os: "orders ?d = orders db"
    and alt: "user_balance ?d = user_balance db \<or>
      (\<exists>uid. updateRows (\<lambda>r. b_user_id r = uid) (debitRow (wSum w)) (user_balance db) =
              Some (user_balance ?d))"
    by blast+
  from alt have "consistent ?d"
  proof
    assume "user_balance ?d = user_balance db"
    with c us os show ?thesis by (simp add: consistent_same)
  next
    assume "\<exists>uid. updateRows (\<lambda>r. b_user_id r = uid) (debitRow (wSum w)) (user_balance db) =
              Some (user_balance ?d)"
    then obtain uid where
      "updateRows (\<lambda>r. b_user_id r = uid) (debitRow (wSum w)) (user_balance db) =
         Some (user_balance ?d)"
      by blast
    from updateRows_rel [OF this] show ?thesis
    proof (rule consistent_update [OF c _ _ _ us])
      fix r r'
      assume "(b_user_id r = uid \<longrightarrow> debitRow (wSum w) r = Some r') \<and>
              (b_user_id r \<noteq> uid \<longrightarrow> r' = r)"
      then show "b_user_id r' = b_user_id r"
        by (cases "b_user_id r = uid") (auto dest: debitRow_Some)
    next
      fix r r'
      assume "(b_user_id r = uid \<longrightarrow> debitRow (wSum w) r = Some r') \<and>
              (b_user_id r \<noteq> uid \<longrightarrow> r' = r)"
        and "row_ok r"
      then show "row_ok r'" by (rule debit_row_ok)
    next
      show "map o_order_number (orders ?d) = map o_order_number (orders db)"
        using os by simp
    qed
  qed
  with Debit show ?thesis by simp
qed

lemma run_consistent: "consistent db \<Longrightarrow> consistent (run hp conv db ops)"
  by (induction ops arbitrary: db) (simp_all add: exec_consistent)

lemma empty_consistent: "consistent empty_database"
  by (simp add: consistent_def empty_database_def)

text \<open>Every database reached from the empty one is consistent.\<close>

lemma reachable_consistent: "consistent (run hp conv empty_database ops)"
  by (rule run_consistent [OF empty_consistent])














text \<open>The handler lets no sum through to \<open>SpendPoints\<close> unless it is above 0.\<close>

lemma WithdrawPointsHandler_guard:
  "dSum withdrawal \<le> 0 \<Longrightarrow>
   WithdrawPointsHandler ctx db (Some username) (Some withdrawal) = (db, 400)"
  by (simp add: WithdrawPointsHandler_def)

section \<open>The ledger: properties\<close>

lemma joinUserBalance_map:
  assumes "\<And>r. b_user_id (f r) = b_user_id r"
  shows "joinUserBalance us (map f ubs) name =
         map (\<lambda>p. (fst p, f (snd p))) (joinUserBalance us ubs name)"
  using assms by (induction ubs) (simp_all add: joinUserBalance_def comp_def)

lemma joinUserBalance_set:
  "(u, ub) \<in> set (joinUserBalance us ubs name) \<longleftrightarrow>
   ub \<in> set ubs \<and> u \<in> set us \<and> b_user_id ub = u_id u \<and> u_username u = name"
  by (auto simp: joinUserBalance_def)

lemma GetUserBalance_head:
  assumes "GetUserBalance CtxLive db name = (x, None)"
  obtains u ub rest where
    "joinUserBalance (users db) (user_balance db) name = (u, ub) # rest"
    "x = \<lparr>Balance = b_balance ub, TotalSpent = b_total_spent ub\<rparr>"
  using assms by (auto simp: GetUserBalance_def split: list.splits)

text \<open>The account that \<open>GetUserBalance\<close> reads, on a consistent database.\<close>

lemma account_row:
  assumes c: "consistent db"
    and g: "GetUserBalance CtxLive db name = (\<lparr>Balance = b, TotalSpent = t\<rparr>, None)"
  obtains u ub rest where
    "joinUserBalance (users db) (user_balance db) name = (u, ub) # rest"
    "ub \<in> set (user_balance db)" "b_user_id ub = u_id u"
    "b_balance ub = b" "b_total_spent ub = t"
    "0 \<le> b" "0 \<le> t" "numeric_ok b" "numeric_ok t"
    "accountID db name = Some (u_id u)"
proof -
  from g obtain u ub rest where
    j: "joinUserBalance (users db) (user_balance db) name = (u, ub) # rest"
    and x: "\<lparr>Balance = b, TotalSpent = t\<rparr> = \<lparr>Balance = b_balance ub, TotalSpent = b_total_spent ub\<rparr>"
    by (rule GetUserBalance_head)
  from x have b: "b_balance ub = b" and t: "b_total_spent ub = t" by simp_all
  have "(u, ub) \<in> set (joinUserBalance (users db) (user_balance db) name)"
    using j by simp
  then have mem: "ub \<in> set (user_balance db)" and ju: "b_user_id ub = u_id u"
    by (simp_all add: joinUserBalance_set)
  from consistent_row [OF c mem] b t
  have "0 \<le> b" "0 \<le> t" "numeric_ok b" "numeric_ok t" by simp_all
  moreover have "accountID db name = Some (u_id u)"
    using j by (simp add: accountID_def)
  ultimately show thesis using that j mem ju b t by blast
qed

lemma GetUserBalance_after_map:
  assumes j: "joinUserBalance (users db) (user_balance db) name = (u, ub) # rest"
    and f: "\<And>r. b_user_id (f r) = b_user_id r"
    and us: "users db' = users db" and ubs: "user_balance db' = map f (user_balance db)"
  shows "GetUserBalance CtxLive db' name =
         (\<lparr>Balance = b_balance (f ub), TotalSpent = b_total_spent (f ub)\<rparr>, None) \<and>
         accountID db' name = Some (u_id u)"
  using j by (simp add: GetUserBalance_def accountID_def us ubs joinUserBalance_map [of f, OF f])

lemma SpendPoints_error_unchanged:
  "snd (SpendPoints ctx db w) \<noteq> None \<Longrightarrow> fst (SpendPoints ctx db w) = db"
  by (simp add: SpendPoints_def Let_def split: option.splits list.splits if_splits prod.splits)

text \<open>\<open>SpendPoints\<close> on a consistent database, in terms of the one row it updates.\<close>

lemma SpendPoints_account:
  assumes c: "consistent db"
    and j: "joinUserBalance (users db) (user_balance db) name = (u, ub) # rest"
  shows "SpendPoints CtxLive db \<lparr>wUser = Some name, wOrder = n, wSum = s\<rparr> =
     (if s > b_balance ub then (db, Some ErrInsufficientFunds)
      else (case debitRow s ub of
              None \<Rightarrow> (db, Some (Wrapped ''error updating user balance''))
            | Some ub' \<Rightarrow>
                (case insertTransaction (loyalty_transactions db) (u_id u) n s spend of
                   None \<Rightarrow> (db, Some (Wrapped ''error creating loyalty transaction''))
                 | Some txs \<Rightarrow>
                     (db\<lparr>user_balance := map (\<lambda>r. if b_user_id r = u_id u then ub' else r)
                                            (user_balance db),
                         loyalty_transactions := txs\<rparr>, None))))"
proof -
  have "(u, ub) \<in> set (joinUserBalance (users db) (user_balance db) name)"
    using j by simp
  then have mem: "ub \<in> set (user_balance db)" and ju: "b_user_id ub = u_id u"
    by (simp_all add: joinUserBalance_set)
  have d: "distinct (map b_user_id (user_balance db))"
    using c by (simp add: consistent_def)
  have upd: "updateRows (\<lambda>r. b_user_id r = u_id u) (debitRow s) (user_balance db) =
      map_option (\<lambda>ub'. map (\<lambda>r. if b_user_id r = u_id u then ub' else r) (user_balance db))
        (debitRow s ub)"
    using updateRows_unique [OF d mem, of "debitRow s"] unfolding ju .
  show ?thesis
    using j by (simp add: SpendPoints_def Let_def upd split: option.splits)
qed

text \<open>The row a debit writes when the amount is above 0 and within the balance.\<close>

lemma debitRow_within_balance:
  assumes pos: "0 < s" and le: "s \<le> b_balance ub"
    and okb: "numeric_ok (b_balance ub)" and t0: "0 \<le> b_total_spent ub"
  shows "debitRow s ub =
           (case numeric_10_2 (b_total_spent ub + s) of
              None \<Rightarrow> None
            | Some t' \<Rightarrow> Some (ub\<lparr>b_balance := round2 (b_balance ub - s), b_total_spent := t'\<rparr>))"
proof -
  have b: "numeric_10_2 (b_balance ub - s) = Some (round2 (b_balance ub - s))"
    using pos le by (intro numeric_10_2_between [OF okb]) simp_all
  have b0: "0 \<le> round2 (b_balance ub - s)"
    using le by (intro round2_nonneg) simp
  have t1: "0 \<le> t'" if "numeric_10_2 (b_total_spent ub + s) = Some t'" for t'
  proof -
    from numeric_10_2_Some [OF that] have "t' = round2 (b_total_spent ub + s)" by simp
    moreover have "0 \<le> round2 (b_total_spent ub + s)"
      using t0 pos by (intro round2_nonneg) simp
    ultimately show ?thesis by simp
  qed
  show ?thesis
    using b b0 t1 by (simp add: debitRow_def Let_def balance_check_def split: option.splits)
qed

lemma insertTransaction_Some:
  assumes "insertTransaction txs uid n p kind = Some txs'"
  shows "\<exists>row. txs' = txs @ [row] \<and> t_user_id row = uid \<and> t_transaction_type row = kind \<and>
               t_points row = round2 p \<and> varchar 255 n = Some (t_order_number row)"
  using assms
  by (auto simp: insertTransaction_def dest: numeric_10_2_Some split: option.splits)

text \<open>
  C3 (as amended). A debit of an amount above 0 against an account that has a balance
  record, with a live context, on a consistent database. \<open>SpendPoints\<close> returns
  \<open>ErrInsufficientFunds\<close> exactly when the amount exceeds the balance. Whenever it returns
  an error it returns the database as it was (balance, total spent and ledger untouched).
  It succeeds when the amount is within the balance, the new total spent fits its column
  and the order number has at most 255 characters. When it succeeds, the balance read back
  is the old balance less the amount, and the total spent is the old total spent plus the
  amount, each rounded to two decimals as its column stores it; exactly one row is appended
  to the ledger, a spend on that account for that order number, with the amount rounded to
  two decimals; users and orders are as before. For an amount with at most two decimals
  none of the three roundings changes anything: the balance is lower by exactly the amount
  and the total spent higher by exactly the amount.
\<close>

theorem SpendPoints_debit:
  assumes c: "consistent db"
    and g: "GetUserBalance CtxLive db username = (\<lparr>Balance = b, TotalSpent = t\<rparr>, None)"
    and pos: "0 < amount"
    and w: "w = \<lparr>wUser = Some username, wOrder = n, wSum = amount\<rparr>"
  shows "(snd (SpendPoints CtxLive db w) = Some ErrInsufficientFunds \<longleftrightarrow> b < amount) \<and>
         (snd (SpendPoints CtxLive db w) \<noteq> None \<longrightarrow> fst (SpendPoints CtxLive db w) = db) \<and>
         (amount \<le> b \<and> numeric_10_2 (t + amount) \<noteq> None \<and> length n \<le> 255 \<longrightarrow>
            snd (SpendPoints CtxLive db w) = None) \<and>
         (snd (SpendPoints CtxLive db w) = None \<longrightarrow>
            (\<exists>row.
               GetUserBalance CtxLive (fst (SpendPoints CtxLive db w)) username
                 = (\<lparr>Balance = round2 (b - amount), TotalSpent = round2 (t + amount)\<rparr>, None) \<and>
               loyalty_transactions (fst (SpendPoints CtxLive db w))
                 = loyalty_transactions db @ [row] \<and>
               t_transaction_type row = spend \<and> varchar 255 n = Some (t_order_number row) \<and>
               t_points row = round2 amount \<and> accountID db username = Some (t_user_id row) \<and>
               users (fst (SpendPoints CtxLive db w)) = users db \<and>
               orders (fst (SpendPoints CtxLive db w)) = orders db)) \<and>
         (two_decimals amount \<longrightarrow>
            round2 (b - amount) = b - amount \<and> round2 (t + amount) = t + amount \<and>
            round2 amount = amount)"
proof -
  from c g obtain u ub rest where
    j: "joinUserBalance (users db) (user_balance db) username = (u, ub) # rest"
    and ju: "b_user_id ub = u_id u"
    and b: "b_balance ub = b" and t: "b_total_spent ub = t"
    and t0: "0 \<le> t" and okb: "numeric_ok b" and okt: "numeric_ok t"
    and acc: "accountID db username = Some (u_id u)"
    by (rule account_row)
  note sp = SpendPoints_account [OF c j, of n amount, folded w, unfolded b]
  have insufficient: "(snd (SpendPoints CtxLive db w) = Some ErrInsufficientFunds) = (b < amount)"
    unfolding sp by (simp split: option.splits)
  have unchanged: "fst (SpendPoints CtxLive db w) = db" if "snd (SpendPoints CtxLive db w) \<noteq> None"
    using that by (rule SpendPoints_error_unchanged)
  have row: "debitRow amount ub =
           (case numeric_10_2 (t + amount) of
              None \<Rightarrow> None
            | Some t' \<Rightarrow> Some (ub\<lparr>b_balance := round2 (b - amount), b_total_spent := t'\<rparr>))"
    if "amount \<le> b"
    using debitRow_within_balance [of amount ub, unfolded b t, OF pos that okb t0] .
  have succeeds: "snd (SpendPoints CtxLive db w) = None"
    if h: "amount \<le> b \<and> numeric_10_2 (t + amount) \<noteq> None \<and> length n \<le> 255"
  proof -
    from h obtain t' where t': "numeric_10_2 (t + amount) = Some t'" by auto
    from h have p: "numeric_10_2 amount = Some (round2 amount)"
      using pos by (intro numeric_10_2_between [OF okb]) simp_all
    from h have v: "varchar 255 n = Some n" by (simp add: varchar_fits)
    from h show ?thesis
      unfolding sp by (simp add: row t' p v insertTransaction_def)
  qed
  have result: "\<exists>row.
               GetUserBalance CtxLive (fst (SpendPoints CtxLive db w)) username
                 = (\<lparr>Balance = round2 (b - amount), TotalSpent = round2 (t + amount)\<rparr>, None) \<and>
               loyalty_transactions (fst (SpendPoints CtxLive db w))
                 = loyalty_transactions db @ [row] \<and>
               t_transaction_type row = spend \<and> varchar 255 n = Some (t_order_number row) \<and>
               t_points row = round2 amount \<and> accountID db username = Some (t_user_id row) \<and>
               users (fst (SpendPoints CtxLive db w)) = users db \<and>
               orders (fst (SpendPoints CtxLive db w)) = orders db"
    if ok: "snd (SpendPoints CtxLive db w) = None"
  proof -
    from ok insufficient have le: "amount \<le> b" by (cases "b < amount") simp_all
    from ok le obtain ub' txs where
      d: "debitRow amount ub = Some ub'"
      and i: "insertTransaction (loyalty_transactions db) (u_id u) n amount spend = Some txs"
      and eq: "SpendPoints CtxLive db w =
                 (db\<lparr>user_balance := map (\<lambda>r. if b_user_id r = u_id u then ub' else r)
                                        (user_balance db),
                     loyalty_transactions := txs\<rparr>, None)"
      unfolding sp by (auto split: option.splits)
    from debitRow_Some [OF d] b t
    have id': "b_user_id ub' = u_id u"
      and nb: "b_balance ub' = round2 (b - amount)"
      and nt: "b_total_spent ub' = round2 (t + amount)"
      using ju by (auto dest: numeric_10_2_Some)
    let ?f = "\<lambda>r. if b_user_id r = u_id u then ub' else r"
    let ?db' = "db\<lparr>user_balance := map ?f (user_balance db), loyalty_transactions := txs\<rparr>"
    have f: "\<And>r. b_user_id (?f r) = b_user_id r" using id' by simp
    have after: "GetUserBalance CtxLive ?db' username
                   = (\<lparr>Balance = round2 (b - amount), TotalSpent = round2 (t + amount)\<rparr>, None)"
      using GetUserBalance_after_map [OF j f, of ?db'] ju nb nt by simp
    from insertTransaction_Some [OF i] obtain row where
      "txs = loyalty_transactions db @ [row]" "t_user_id row = u_id u"
      "t_transaction_type row = spend" "t_points row = round2 amount"
      "varchar 255 n = Some (t_order_number row)"
      by blast
    with after acc show ?thesis unfolding eq by auto
  qed
  have exact: "round2 (b - amount) = b - amount \<and> round2 (t + amount) = t + amount \<and>
            round2 amount = amount" if td: "two_decimals amount"
  proof -
    from okb okt have "two_decimals b" "two_decimals t" by (simp_all add: numeric_ok_iff)
    with td have "two_decimals (b - amount)" "two_decimals (t + amount)"
      by (simp_all add: two_decimals_add two_decimals_diff)
    with td show ?thesis by (simp add: round2_two_decimals)
  qed
  from insufficient unchanged succeeds result exact show ?thesis by blast
qed

text \<open>
  Balance 50: a debit of 100 is refused, a debit of 20.25 leaves 29.75 and a total spent
  of 20.25.
\<close>

theorem SpendPoints_debit_witness:
  "SpendPoints CtxLive db_alice \<lparr>wUser = Some ''alice'', wOrder = ''79927398713'', wSum = 100\<rparr>
     = (db_alice, Some ErrInsufficientFunds) \<and>
   two_decimals (81 / 4) \<and>
   snd (SpendPoints CtxLive db_alice
          \<lparr>wUser = Some ''alice'', wOrder = ''79927398713'', wSum = 81 / 4\<rparr>) = None \<and>
   GetUserBalance CtxLive
     (fst (SpendPoints CtxLive db_alice
             \<lparr>wUser = Some ''alice'', wOrder = ''79927398713'', wSum = 81 / 4\<rparr>))
     ''alice'' = (\<lparr>Balance = 119 / 4, TotalSpent = 81 / 4\<rparr>, None)"
proof -
  have c: "consistent db_alice" by code_simp
  have g: "GetUserBalance CtxLive db_alice ''alice'' = (\<lparr>Balance = 50, TotalSpent = 0\<rparr>, None)"
    by (simp add: GetUserBalance_def joinUserBalance_def db_alice_def)
  have p: "(0 :: rat) < 100" "(0 :: rat) < 81 / 4" by simp_all
  have td: "two_decimals (81 / 4)" by code_simp
  have fits: "numeric_10_2 (0 + 81 / 4) \<noteq> None" by code_simp
  have big: "(50 :: rat) < 100" by simp
  have small: "(81 / 4 :: rat) \<le> 50" by simp
  have len: "length ''79927398713'' \<le> 255" by simp
  have ar: "(50 :: rat) - 81 / 4 = 119 / 4" by simp
  from SpendPoints_debit [OF c g p(1) refl, of "''79927398713''"] big
  have a: "SpendPoints CtxLive db_alice
             \<lparr>wUser = Some ''alice'', wOrder = ''79927398713'', wSum = 100\<rparr>
           = (db_alice, Some ErrInsufficientFunds)"
    by (simp add: prod_eq_iff)
  from SpendPoints_debit [OF c g p(2) refl, of "''79927398713''"] small fits len td ar
  have "snd (SpendPoints CtxLive db_alice
          \<lparr>wUser = Some ''alice'', wOrder = ''79927398713'', wSum = 81 / 4\<rparr>) = None"
    and "GetUserBalance CtxLive
     (fst (SpendPoints CtxLive db_alice
             \<lparr>wUser = Some ''alice'', wOrder = ''79927398713'', wSum = 81 / 4\<rparr>))
     ''alice'' = (\<lparr>Balance = 119 / 4, TotalSpent = 81 / 4\<rparr>, None)"
    by auto
  with a td show ?thesis by simp
qed

text \<open>
  C3 as stated fails: the amount 0.001 is above 0 and within the balance 50, and
  \<open>SpendPoints\<close> succeeds, but the balance read back is still 50 and the total spent still
  0: both columns hold two decimals, and the spend transaction is recorded with 0 points.
  \<open>WithdrawPointsHandler\<close> passes this debit on and answers 200.
\<close>

theorem SpendPoints_below_a_cent:
  "GetUserBalance CtxLive db_alice ''alice'' = (\<lparr>Balance = 50, TotalSpent = 0\<rparr>, None) \<and>
   snd (SpendPoints CtxLive db_alice
          \<lparr>wUser = Some ''alice'', wOrder = ''79927398713'', wSum = 1 / 1000\<rparr>) = None \<and>
   GetUserBalance CtxLive
     (fst (SpendPoints CtxLive db_alice
             \<lparr>wUser = Some ''alice'', wOrder = ''79927398713'', wSum = 1 / 1000\<rparr>))
     ''alice'' = (\<lparr>Balance = 50, TotalSpent = 0\<rparr>, None) \<and>
   map t_points (spendsOf
     (fst (SpendPoints CtxLive db_alice
             \<lparr>wUser = Some ''alice'', wOrder = ''79927398713'', wSum = 1 / 1000\<rparr>))) = [0] \<and>
   WithdrawPointsHandler CtxLive db_alice (Some ''alice'')
     (Some \<lparr>dOrder = ''79927398713'', dSum = 1 / 1000\<rparr>)
     = (fst (SpendPoints CtxLive db_alice
               \<lparr>wUser = Some ''alice'', wOrder = ''79927398713'', wSum = 1 / 1000\<rparr>), 200)"
  by code_simp

lemma SpendPoints_ignores_orders:
  "SpendPoints ctx (db\<lparr>orders := os\<rparr>) w =
   ((fst (SpendPoints ctx db w))\<lparr>orders := os\<rparr>, snd (SpendPoints ctx db w))"
  by (simp add: SpendPoints_def Let_def split: option.splits list.splits)

text \<open>
  C10 (as amended). On a consistent database, with a live context, for an account whose
  balance is at least the requested sum, a sum above 0 that the total spent can take, and
  for every order number of at most 255 characters: \<open>SpendPoints\<close> succeeds, appends one
  spend transaction that carries this order number and leaves \<open>orders\<close> as it is. It
  succeeds just the same on the database with the table \<open>orders\<close> emptied: the debit never
  reads that table.
\<close>

theorem SpendPoints_any_order_number:
  assumes c: "consistent db"
    and g: "GetUserBalance CtxLive db username = (\<lparr>Balance = b, TotalSpent = t\<rparr>, None)"
    and pos: "0 < s"
    and le: "s \<le> b"
    and fits: "numeric_10_2 (t + s) \<noteq> None"
    and len: "length n \<le> 255"
  shows "(\<exists>db' row.
            SpendPoints CtxLive db \<lparr>wUser = Some username, wOrder = n, wSum = s\<rparr> = (db', None) \<and>
            loyalty_transactions db' = loyalty_transactions db @ [row] \<and>
            t_transaction_type row = spend \<and> t_order_number row = n \<and>
            t_points row = round2 s \<and> orders db' = orders db) \<and>
         SpendPoints CtxLive (db\<lparr>orders := []\<rparr>) \<lparr>wUser = Some username, wOrder = n, wSum = s\<rparr>
           = ((fst (SpendPoints CtxLive db \<lparr>wUser = Some username, wOrder = n, wSum = s\<rparr>))\<lparr>orders := []\<rparr>,
              None)"
proof -
  from c g obtain u ub rest where
    j: "joinUserBalance (users db) (user_balance db) username = (u, ub) # rest"
    and b: "b_balance ub = b" and t: "b_total_spent ub = t"
    and t0: "0 \<le> t" and okb: "numeric_ok b"
    by (rule account_row)
  from fits obtain t' where t': "numeric_10_2 (t + s) = Some t'" by auto
  have row: "debitRow s ub = Some (ub\<lparr>b_balance := round2 (b - s), b_total_spent := t'\<rparr>)"
    using debitRow_within_balance [of s ub, unfolded b t, OF pos le okb t0] t' by simp
  have p: "numeric_10_2 s = Some (round2 s)"
    using pos le by (intro numeric_10_2_between [OF okb]) simp_all
  let ?row = "\<lparr>t_user_id = u_id u, t_order_number = n, t_points = round2 s,
               t_transaction_type = spend\<rparr>"
  let ?db' = "db\<lparr>user_balance :=
                   map (\<lambda>r. if b_user_id r = u_id u
                             then ub\<lparr>b_balance := round2 (b - s), b_total_spent := t'\<rparr> else r)
                     (user_balance db),
                 loyalty_transactions := loyalty_transactions db @ [?row]\<rparr>"
  have ok: "SpendPoints CtxLive db \<lparr>wUser = Some username, wOrder = n, wSum = s\<rparr> = (?db', None)"
    using le b
    by (simp add: SpendPoints_account [OF c j] row p insertTransaction_def varchar_fits [OF len])
  have first: "\<exists>db' row.
            SpendPoints CtxLive db \<lparr>wUser = Some username, wOrder = n, wSum = s\<rparr> = (db', None) \<and>
            loyalty_transactions db' = loyalty_transactions db @ [row] \<and>
            t_transaction_type row = spend \<and> t_order_number row = n \<and>
            t_points row = round2 s \<and> orders db' = orders db"
    apply (rule exI [of _ ?db'])
    apply (rule exI [of _ ?row])
    using ok by simp
  have second: "SpendPoints CtxLive (db\<lparr>orders := []\<rparr>) \<lparr>wUser = Some username, wOrder = n, wSum = s\<rparr>
           = ((fst (SpendPoints CtxLive db \<lparr>wUser = Some username, wOrder = n, wSum = s\<rparr>))\<lparr>orders := []\<rparr>,
              None)"
    using SpendPoints_ignores_orders [where ctx = CtxLive and db = db and os = "[]"
          and w = "\<lparr>wUser = Some username, wOrder = n, wSum = s\<rparr>"]
      ok by simp
  from first second show ?thesis by (rule conjI)
qed

text \<open>A debit of 20 for an order number that no order row carries.\<close>

theorem SpendPoints_any_order_number_witness:
  "ownerOf db_alice ''79927398713'' = None \<and>
   snd (SpendPoints CtxLive db_alice \<lparr>wUser = Some ''alice'', wOrder = ''79927398713'', wSum = 20\<rparr>) = None \<and>
   map t_order_number (spendsOf
     (fst (SpendPoints CtxLive db_alice \<lparr>wUser = Some ''alice'', wOrder = ''79927398713'', wSum = 20\<rparr>)))
     = [''79927398713'']"
proof -
  have c: "consistent db_alice" by code_simp
  have g: "GetUserBalance CtxLive db_alice ''alice'' = (\<lparr>Balance = 50, TotalSpent = 0\<rparr>, None)"
    by (simp add: GetUserBalance_def joinUserBalance_def db_alice_def)
  have p: "(0 :: rat) < 20" "(20 :: rat) \<le> 50" by simp_all
  have fits: "numeric_10_2 (0 + 20) \<noteq> None" by code_simp
  have len: "length ''79927398713'' \<le> 255" by simp
  have o: "ownerOf db_alice ''79927398713'' = None"
    by (simp add: ownerOf_def db_alice_def)
  have l: "loyalty_transactions db_alice = []" by (simp add: db_alice_def)
  from SpendPoints_any_order_number [OF c g p fits len]
  obtain db' row where
    "SpendPoints CtxLive db_alice \<lparr>wUser = Some ''alice'', wOrder = ''79927398713'', wSum = 20\<rparr>
       = (db', None)"
    "loyalty_transactions db' = loyalty_transactions db_alice @ [row]"
    "t_transaction_type row = spend" "t_order_number row = ''79927398713''"
    by blast
  with o l show ?thesis by (simp add: spendsOf_def)
qed

text \<open>
  C10 as stated fails: the order number of 302 digits passes \<open>isValidLuhn\<close>, the sum 20 is
  above 0 and the balance 50 is at least the sum, but the column \<open>order_number\<close> of
  \<open>loyalty_transactions\<close> is \<open>VARCHAR(255)\<close>. The \<open>INSERT\<close> is refused, \<open>SpendPoints\<close>
  rolls back and returns an error, and \<open>WithdrawPointsHandler\<close> answers 500.
\<close>

theorem SpendPoints_long_order_number:
  "isValidLuhn longOrderNumber \<and>
   GetUserBalance CtxLive db_alice ''alice'' = (\<lparr>Balance = 50, TotalSpent = 0\<rparr>, None) \<and>
   SpendPoints CtxLive db_alice \<lparr>wUser = Some ''alice'', wOrder = longOrderNumber, wSum = 20\<rparr>
     = (db_alice, Some (Wrapped ''error creating loyalty transaction'')) \<and>
   WithdrawPointsHandler CtxLive db_alice (Some ''alice'')
     (Some \<lparr>dOrder = longOrderNumber, dSum = 20\<rparr>) = (db_alice, 500)"
  by code_simp

text \<open>
  A credit on a consistent database, with a live context: the order exists and is owned by
  the account, the accrual is above 0 and has at most two decimals, the new balance is
  below \<open>10 ^ 8\<close>, and the driver stores the accrual in \<open>orders.accrual\<close>.
\<close>

lemma find_map_orders:
  assumes "\<And>r. o_order_number (g r) = o_order_number r"
  shows "find (\<lambda>r. o_order_number r = n) (map g rs) =
         map_option g (find (\<lambda>r. o_order_number r = n) rs)"
  using assms by (induction rs) simp_all

lemma credit_once:
  assumes c: "consistent db"
    and g: "GetUserBalance CtxLive db username = (\<lparr>Balance = b, TotalSpent = t\<rparr>, None)"
    and acc: "accountID db username = Some uid"
    and own: "ownerOf db n = Some uid"
    and pos: "0 < a" and td: "two_decimals a" and fits: "b + a < 100000000"
    and enc: "toInteger a = Some k"
  shows "\<exists>db'. UpdateOrderStatusAndAccrual toInteger CtxLive db n ''PROCESSED'' (Some a) = (db', None) \<and>
           consistent db' \<and>
           GetUserBalance CtxLive db' username = (\<lparr>Balance = b + a, TotalSpent = t\<rparr>, None) \<and>
           accountID db' username = Some uid \<and> ownerOf db' n = Some uid \<and>
           statusOf db' n = Some PROCESSED \<and> accrualOf db' n = Some k \<and>
           loyalty_transactions db' = loyalty_transactions db @
             [\<lparr>t_user_id = uid, t_order_number = n, t_points = a, t_transaction_type = earn\<rparr>]"
proof -
  from c g obtain u ub rest where
    j: "joinUserBalance (users db) (user_balance db) username = (u, ub) # rest"
    and mem: "ub \<in> set (user_balance db)" and ju: "b_user_id ub = u_id u"
    and b: "b_balance ub = b" and t: "b_total_spent ub = t"
    and b0: "0 \<le> b" and t0: "0 \<le> t" and okb: "numeric_ok b"
    and acc': "accountID db username = Some (u_id u)"
    by (rule account_row)
  from acc acc' have u: "u_id u = uid" by simp
  from own obtain row where
    o: "find (\<lambda>r. o_order_number r = n) (orders db) = Some row" and r: "o_user_id row = uid"
    by (auto simp: ownerOf_def)
  have rown: "o_order_number row = n" and rmem: "row \<in> set (orders db)"
    using o by (auto simp: find_Some_iff)
  from c rmem rown have len: "length n \<le> 255"
    by (auto simp: consistent_def list_all_iff)
  from okb td have "two_decimals (b + a)"
    by (simp add: numeric_ok_iff two_decimals_add)
  with b0 pos fits have nb: "numeric_10_2 (b + a) = Some (b + a)"
    by (intro numeric_10_2_exact) simp_all
  from b0 pos fits td have na: "numeric_10_2 a = Some a"
    by (intro numeric_10_2_exact) simp_all
  have cr: "creditRow a ub = Some (ub\<lparr>b_balance := b + a\<rparr>)"
    using nb b0 pos t0 b t by (simp add: creditRow_def Let_def balance_check_def)
  have d: "distinct (map b_user_id (user_balance db))"
    using c by (simp add: consistent_def)
  let ?f = "\<lambda>r. if b_user_id r = uid then ub\<lparr>b_balance := b + a\<rparr> else r"
  have upd: "updateRows (\<lambda>r. b_user_id r = uid) (creditRow a) (user_balance db) =
             Some (map ?f (user_balance db))"
    using updateRows_unique [OF d mem, of "creditRow a"] cr ju u by simp
  let ?g = "\<lambda>r. if o_order_number r = n then r\<lparr>o_status := PROCESSED, o_accrual := Some k\<rparr> else r"
  let ?e = "\<lparr>t_user_id = uid, t_order_number = n, t_points = a, t_transaction_type = earn\<rparr>"
  let ?db' = "db\<lparr>orders := map ?g (orders db), user_balance := map ?f (user_balance db),
                 loyalty_transactions := loyalty_transactions db @ [?e]\<rparr>"
  have run: "UpdateOrderStatusAndAccrual toInteger CtxLive db n ''PROCESSED'' (Some a) = (?db', None)"
    using o r pos enc upd na varchar_fits [OF len]
    by (simp add: UpdateOrderStatusAndAccrual_def order_status_of_def accrualColumn_def
        insertTransaction_def Let_def)
  have "consistent (exec hp toInteger db (Credit CtxLive n ''PROCESSED'' (Some a)))" for hp
    by (rule exec_consistent [OF c])
  then have c': "consistent ?db'" using run by simp
  have f: "\<And>r. b_user_id (?f r) = b_user_id r" using ju u by simp
  have after: "GetUserBalance CtxLive ?db' username = (\<lparr>Balance = b + a, TotalSpent = t\<rparr>, None)"
    and acc1: "accountID ?db' username = Some uid"
    using GetUserBalance_after_map [OF j f, of ?db'] ju u t by simp_all
  have gk: "\<And>r. o_order_number (?g r) = o_order_number r" by simp
  have o1: "find (\<lambda>r. o_order_number r = n) (orders ?db') = Some (?g row)"
    using find_map_orders [of ?g n "orders db", OF gk] o by simp
  have own1: "ownerOf ?db' n = Some uid" and st1: "statusOf ?db' n = Some PROCESSED"
    and ac1: "accrualOf ?db' n = Some k"
    using o1 r rown by (simp_all add: ownerOf_def statusOf_def accrualOf_def)
  show ?thesis
    apply (rule exI [of _ ?db'])
    using run c' after acc1 own1 st1 ac1 by simp
qed

text \<open>
  C9 (as amended). On a consistent database, with a live context, for an account with a
  balance record that owns the order and for every amount above 0 with at most two
  decimals such that the balance plus the amount is below \<open>10 ^ 8\<close> and the accrual can be
  stored in \<open>orders.accrual\<close>: \<open>UpdateOrderStatusAndAccrual\<close> with status PROCESSED and
  that accrual succeeds, and \<open>GetUserBalance\<close> then returns a balance higher by exactly
  the amount and the same total spent.
\<close>

theorem credit_then_GetUserBalance:
  assumes c: "consistent db"
    and g: "GetUserBalance CtxLive db username = (\<lparr>Balance = b, TotalSpent = t\<rparr>, None)"
    and acc: "accountID db username = Some uid"
    and own: "ownerOf db n = Some uid"
    and pos: "0 < amount"
    and td: "two_decimals amount"
    and fits: "b + amount < 100000000"
    and enc: "toInteger amount = Some k"
  shows "\<exists>db'. UpdateOrderStatusAndAccrual toInteger CtxLive db n ''PROCESSED'' (Some amount)
                  = (db', None) \<and>
               GetUserBalance CtxLive db' username
                 = (\<lparr>Balance = b + amount, TotalSpent = t\<rparr>, None)"
  using credit_once [where toInteger = toInteger, OF c g acc own pos td fits enc] by blast

text \<open>Balance 50 and a credit of 729.98: the balance read back is 779.98.\<close>

theorem credit_then_GetUserBalance_witness:
  "snd (UpdateOrderStatusAndAccrual int4Stub CtxLive db_alice ''12345678903'' ''PROCESSED''
          (Some (72998 / 100))) = None \<and>
   GetUserBalance CtxLive db_alice ''alice'' = (\<lparr>Balance = 50, TotalSpent = 0\<rparr>, None) \<and>
   GetUserBalance CtxLive
     (fst (UpdateOrderStatusAndAccrual int4Stub CtxLive db_alice ''12345678903'' ''PROCESSED''
             (Some (72998 / 100))))
     ''alice'' = (\<lparr>Balance = 50 + 72998 / 100, TotalSpent = 0\<rparr>, None)"
proof -
  have c: "consistent db_alice" by code_simp
  have g: "GetUserBalance CtxLive db_alice ''alice'' = (\<lparr>Balance = 50, TotalSpent = 0\<rparr>, None)"
    by (simp add: GetUserBalance_def joinUserBalance_def db_alice_def)
  have acc: "accountID db_alice ''alice'' = Some ''u1''"
    by (simp add: accountID_def joinUserBalance_def db_alice_def)
  have own: "ownerOf db_alice ''12345678903'' = Some ''u1''"
    by (simp add: ownerOf_def db_alice_def)
  have p: "(0 :: rat) < 72998 / 100" by simp
  have td: "two_decimals (72998 / 100)" by code_simp
  have fits: "(50 :: rat) + 72998 / 100 < 100000000" by simp
  have enc: "int4Stub (72998 / 100) = Some 729" by code_simp
  from credit_then_GetUserBalance [where toInteger = int4Stub, OF c g acc own p td fits enc]
  obtain db' where
    "UpdateOrderStatusAndAccrual int4Stub CtxLive db_alice ''12345678903'' ''PROCESSED''
       (Some (72998 / 100)) = (db', None)"
    "GetUserBalance CtxLive db' ''alice'' = (\<lparr>Balance = 50 + 72998 / 100, TotalSpent = 0\<rparr>, None)"
    by auto
  with g show ?thesis by simp
qed

text \<open>
  C9 as stated fails. A credit of 0.001 succeeds and the balance read back is still 50:
  the column holds two decimals. A credit of \<open>10 ^ 8\<close> is refused by the column
  (\<open>NUMERIC(10,2)\<close> holds less than \<open>10 ^ 8\<close>), the transaction is rolled back, and the
  balance read back is still 50.
\<close>

theorem credit_not_read_back:
  "GetUserBalance CtxLive db_alice ''alice'' = (\<lparr>Balance = 50, TotalSpent = 0\<rparr>, None) \<and>
   snd (UpdateOrderStatusAndAccrual int4Stub CtxLive db_alice ''12345678903'' ''PROCESSED''
          (Some (1 / 1000))) = None \<and>
   GetUserBalance CtxLive
     (fst (UpdateOrderStatusAndAccrual int4Stub CtxLive db_alice ''12345678903'' ''PROCESSED''
             (Some (1 / 1000))))
     ''alice'' = (\<lparr>Balance = 50, TotalSpent = 0\<rparr>, None) \<and>
   UpdateOrderStatusAndAccrual int4Stub CtxLive db_alice ''12345678903'' ''PROCESSED''
     (Some 100000000) = (db_alice, Some (Wrapped ''error updating user balance''))"
  by code_simp

text \<open>
  C1 (as amended). \<open>UpdateOrderStatusAndAccrual\<close> never reads the current status of the
  order. On a consistent database, with a live context, a call with status PROCESSED and an
  accrual above 0 for an existing order adds the accrual to the balance of the owner and
  appends one earn transaction for the order. A second call, made when the order is
  already PROCESSED, does the same again: two earn transactions more than at the start,
  and the balance higher by twice the accrual. (The accrual has at most two decimals, the
  balance stays below \<open>10 ^ 8\<close> and the accrual can be stored in \<open>orders.accrual\<close>.)
\<close>

theorem credit_applied_on_every_call:
  assumes c: "consistent db"
    and g: "GetUserBalance CtxLive db username = (\<lparr>Balance = b, TotalSpent = t\<rparr>, None)"
    and acc: "accountID db username = Some uid"
    and own: "ownerOf db n = Some uid"
    and pos: "0 < a"
    and td: "two_decimals a"
    and fits: "b + a + a < 100000000"
    and enc: "toInteger a = Some k"
  shows "\<exists>db1 db2.
           UpdateOrderStatusAndAccrual toInteger CtxLive db n ''PROCESSED'' (Some a) = (db1, None) \<and>
           loyalty_transactions db1 = loyalty_transactions db @
             [\<lparr>t_user_id = uid, t_order_number = n, t_points = a, t_transaction_type = earn\<rparr>] \<and>
           GetUserBalance CtxLive db1 username = (\<lparr>Balance = b + a, TotalSpent = t\<rparr>, None) \<and>
           statusOf db1 n = Some PROCESSED \<and>
           UpdateOrderStatusAndAccrual toInteger CtxLive db1 n ''PROCESSED'' (Some a) = (db2, None) \<and>
           loyalty_transactions db2 = loyalty_transactions db @
             [\<lparr>t_user_id = uid, t_order_number = n, t_points = a, t_transaction_type = earn\<rparr>,
              \<lparr>t_user_id = uid, t_order_number = n, t_points = a, t_transaction_type = earn\<rparr>] \<and>
           GetUserBalance CtxLive db2 username = (\<lparr>Balance = b + a + a, TotalSpent = t\<rparr>, None) \<and>
           length (earnsOf db2 n) = length (earnsOf db n) + 2"
proof -
  from fits pos have fits1: "b + a < 100000000" by simp
  from credit_once [where toInteger = toInteger, OF c g acc own pos td fits1 enc] obtain db1 where
    run1: "UpdateOrderStatusAndAccrual toInteger CtxLive db n ''PROCESSED'' (Some a) = (db1, None)"
    and c1: "consistent db1"
    and g1: "GetUserBalance CtxLive db1 username = (\<lparr>Balance = b + a, TotalSpent = t\<rparr>, None)"
    and acc1: "accountID db1 username = Some uid" and own1: "ownerOf db1 n = Some uid"
    and st1: "statusOf db1 n = Some PROCESSED"
    and l1: "loyalty_transactions db1 = loyalty_transactions db @
             [\<lparr>t_user_id = uid, t_order_number = n, t_points = a, t_transaction_type = earn\<rparr>]"
    by blast
  from credit_once [where toInteger = toInteger, OF c1 g1 acc1 own1 pos td fits enc] obtain db2 where
    run2: "UpdateOrderStatusAndAccrual toInteger CtxLive db1 n ''PROCESSED'' (Some a) = (db2, None)"
    and g2: "GetUserBalance CtxLive db2 username = (\<lparr>Balance = b + a + a, TotalSpent = t\<rparr>, None)"
    and l2: "loyalty_transactions db2 = loyalty_transactions db1 @
             [\<lparr>t_user_id = uid, t_order_number = n, t_points = a, t_transaction_type = earn\<rparr>]"
    by blast
  have len: "length (earnsOf db2 n) = length (earnsOf db n) + 2"
    by (simp add: earnsOf_def l1 l2)
  show ?thesis
    apply (rule exI [of _ db1])
    apply (rule exI [of _ db2])
    using run1 l1 g1 st1 run2 l2 g2 len by simp
qed

text \<open>Two calls with accrual 500 on the order of alice: two earn transactions.\<close>

theorem credit_applied_on_every_call_witness:
  "snd (UpdateOrderStatusAndAccrual int4Stub CtxLive db_alice ''12345678903'' ''PROCESSED'' (Some 500))
     = None \<and>
   statusOf (fst (UpdateOrderStatusAndAccrual int4Stub CtxLive db_alice ''12345678903''
                    ''PROCESSED'' (Some 500)))
     ''12345678903'' = Some PROCESSED \<and>
   length (earnsOf
     (fst (UpdateOrderStatusAndAccrual int4Stub CtxLive
        (fst (UpdateOrderStatusAndAccrual int4Stub CtxLive db_alice ''12345678903''
                ''PROCESSED'' (Some 500)))
        ''12345678903'' ''PROCESSED'' (Some 500)))
     ''12345678903'') = 2 \<and>
   GetUserBalance CtxLive
     (fst (UpdateOrderStatusAndAccrual int4Stub CtxLive
        (fst (UpdateOrderStatusAndAccrual int4Stub CtxLive db_alice ''12345678903''
                ''PROCESSED'' (Some 500)))
        ''12345678903'' ''PROCESSED'' (Some 500)))
     ''alice'' = (\<lparr>Balance = 1050, TotalSpent = 0\<rparr>, None)"
proof -
  have c: "consistent db_alice" by code_simp
  have g: "GetUserBalance CtxLive db_alice ''alice'' = (\<lparr>Balance = 50, TotalSpent = 0\<rparr>, None)"
    by (simp add: GetUserBalance_def joinUserBalance_def db_alice_def)
  have acc: "accountID db_alice ''alice'' = Some ''u1''"
    by (simp add: accountID_def joinUserBalance_def db_alice_def)
  have own: "ownerOf db_alice ''12345678903'' = Some ''u1''"
    by (simp add: ownerOf_def db_alice_def)
  have p: "(0 :: rat) < 500" by simp
  have td: "two_decimals 500" by code_simp
  have fits: "(50 :: rat) + 500 + 500 < 100000000" by simp
  have enc: "int4Stub 500 = Some 500" by code_simp
  have e: "earnsOf db_alice ''12345678903'' = []"
    by (simp add: earnsOf_def db_alice_def)
  from credit_applied_on_every_call [where toInteger = int4Stub, OF c g acc own p td fits enc]
  obtain db1 db2 where
    "UpdateOrderStatusAndAccrual int4Stub CtxLive db_alice ''12345678903'' ''PROCESSED'' (Some 500)
       = (db1, None)"
    "statusOf db1 ''12345678903'' = Some PROCESSED"
    "UpdateOrderStatusAndAccrual int4Stub CtxLive db1 ''12345678903'' ''PROCESSED'' (Some 500)
       = (db2, None)"
    "length (earnsOf db2 ''12345678903'') = length (earnsOf db_alice ''12345678903'') + 2"
    "GetUserBalance CtxLive db2 ''alice'' = (\<lparr>Balance = 50 + 500 + 500, TotalSpent = 0\<rparr>, None)"
    by blast
  with e show ?thesis by simp
qed

text \<open>
  C1 as stated fails: order 12345678903 is PROCESSED and has its earn transaction, the
  owner's balance is 500; the credit path run once more records a second earn transaction
  and raises the balance to 1000.
\<close>

theorem second_credit_on_terminal_order:
  "statusOf db_two ''12345678903'' = Some PROCESSED \<and>
   length (earnsOf db_two ''12345678903'') = 1 \<and>
   GetUserBalance CtxLive db_two ''alice'' = (\<lparr>Balance = 500, TotalSpent = 0\<rparr>, None) \<and>
   snd (UpdateOrderStatusAndAccrual int4Stub CtxLive db_two ''12345678903'' ''PROCESSED''
          (Some 500)) = None \<and>
   length (earnsOf
     (fst (UpdateOrderStatusAndAccrual int4Stub CtxLive db_two ''12345678903'' ''PROCESSED''
             (Some 500)))
     ''12345678903'') = 2 \<and>
   GetUserBalance CtxLive
     (fst (UpdateOrderStatusAndAccrual int4Stub CtxLive db_two ''12345678903'' ''PROCESSED''
             (Some 500)))
     ''alice'' = (\<lparr>Balance = 1000, TotalSpent = 0\<rparr>, None)"
  by code_simp

section \<open>The polling worker: properties\<close>

text \<open>A pass that is handed a context that is done writes nothing.\<close>

lemma pollOnce_done_ctx: "fst (pollOnce toInteger CtxDone orderNumber res db) = db"
  by (simp add: pollOnce_def UpdateOrderStatusAndAccrual_def UpdateOrderStatus_def
      split: http_result.splits option.splits)

lemma PollOrderStatus_done_ctx:
  "fst (PollOrderStatus toInteger CtxDone orderNumber cases db) = db"
proof (induction cases arbitrary: db)
  case Nil
  then show ?case by simp
next
  case (Cons c cases)
  show ?case
  proof (cases c)
    case PollCtxDone
    then show ?thesis by simp
  next
    case (TickerC res)
    obtain db1 it where p: "pollOnce toInteger CtxDone orderNumber res db = (db1, it)"
      by (cases "pollOnce toInteger CtxDone orderNumber res db")
    with pollOnce_done_ctx [of toInteger orderNumber res db] have "db1 = db" by simp
    with p TickerC Cons.IH [of db] show ?thesis
      by (cases it) simp_all
  qed
qed

text \<open>
  With a live context, a pass that receives PROCESSED with an accrual above 0 for an
  existing order on a consistent database sets the status and the accrual of the order,
  adds the accrual to the balance of the owner, appends one earn transaction and returns
  (for an accrual with at most two decimals that the columns can take).
\<close>

lemma pollOnce_verdict_live:
  assumes c: "consistent db"
    and g: "GetUserBalance CtxLive db username = (\<lparr>Balance = b, TotalSpent = t\<rparr>, None)"
    and acc: "accountID db username = Some uid"
    and own: "ownerOf db n = Some uid"
    and pos: "0 < a" and td: "two_decimals a" and fits: "b + a < 100000000"
    and enc: "toInteger a = Some k"
  shows "\<exists>db'. pollOnce toInteger CtxLive n
            (Got \<lparr>StatusCode = 200,
                  Body = Some \<lparr>rOrder = x, rStatus = ''PROCESSED'', rAccrual = Some a\<rparr>,
                  RetryAfterHeader = h\<rparr>) db = (db', Return) \<and>
           statusOf db' n = Some PROCESSED \<and> accrualOf db' n = Some k \<and>
           GetUserBalance CtxLive db' username = (\<lparr>Balance = b + a, TotalSpent = t\<rparr>, None) \<and>
           loyalty_transactions db' = loyalty_transactions db @
             [\<lparr>t_user_id = uid, t_order_number = n, t_points = a, t_transaction_type = earn\<rparr>]"
proof -
  from credit_once [where toInteger = toInteger, OF c g acc own pos td fits enc] obtain db' where
    "UpdateOrderStatusAndAccrual toInteger CtxLive db n ''PROCESSED'' (Some a) = (db', None)"
    "statusOf db' n = Some PROCESSED" "accrualOf db' n = Some k"
    "GetUserBalance CtxLive db' username = (\<lparr>Balance = b + a, TotalSpent = t\<rparr>, None)"
    "loyalty_transactions db' = loyalty_transactions db @
             [\<lparr>t_user_id = uid, t_order_number = n, t_points = a, t_transaction_type = earn\<rparr>]"
    by blast
  then show ?thesis by (simp add: pollOnce_def)
qed

text \<open>
  The variant without a deadline hands its own context to the repository: on the third
  poll the order becomes PROCESSED with accrual 500, the balance goes from 50 to 550 and
  one earn transaction is recorded.
\<close>

lemma worker_noDeadline_credits:
  "PollOrderStatus_noDeadline int4Stub ''12345678903'' [processing, processing, processed500]
     db_alice =
     (\<lparr>users = [\<lparr>u_id = ''u1'', u_username = ''alice'', u_password_hash = ''#secret''\<rparr>],
       orders = [\<lparr>o_order_number = ''12345678903'', o_user_id = ''u1'', o_status = PROCESSED,
                  o_accrual = Some 500\<rparr>],
       user_balance = [\<lparr>b_user_id = ''u1'', b_balance = 550, b_total_spent = 0\<rparr>],
       loyalty_transactions = [\<lparr>t_user_id = ''u1'', t_order_number = ''12345678903'',
                                t_points = 500, t_transaction_type = earn\<rparr>]\<rparr>, Exited)"
  by code_simp

text \<open>
  C4. The worker with the deadline receives, on its third poll, the verdict PROCESSED with
  accrual 500 for order 12345678903. It hands the context of its caller to
  \<open>UpdateOrderStatusAndAccrual\<close>; that context is the one of the HTTP request that
  submitted the order, which is done once the handler has returned. The transaction is then
  rolled back at its first statement: the order keeps status NEW, the balance stays 50, no
  earn transaction is appended, and the worker exits.
\<close>

theorem worker_verdict_with_done_caller_ctx:
  "PollOrderStatus toInteger CtxDone ''12345678903''
     [TickerC processing, TickerC processing, TickerC processed500] db_alice
   = (db_alice, Exited)"
  by (simp add: pollOnce_def processing_def processed500_def UpdateOrderStatusAndAccrual_def)

text \<open>A pass that receives no verdict writes nothing and goes back to the \<open>select\<close>.\<close>

lemma pollOnce_no_verdict:
  "\<not> is_verdict res \<Longrightarrow> \<exists>p. pollOnce toInteger updCtx orderNumber res db = (db, Continue p)"
  by (auto simp: is_verdict_def pollOnce_def split: http_result.splits option.splits)

text \<open>
  The worker without a deadline returns only on a verdict: as long as none arrives it is
  still polling, however many polls have been made.
\<close>

lemma worker_noDeadline_never_returns:
  "list_all (\<lambda>res. \<not> is_verdict res) ress \<Longrightarrow>
   PollOrderStatus_noDeadline toInteger orderNumber ress db = (db, Polling)"
proof (induction ress)
  case Nil
  then show ?case by simp
next
  case (Cons res ress)
  then obtain p where "pollOnce toInteger Background orderNumber res db = (db, Continue p)"
    using pollOnce_no_verdict [of res toInteger Background orderNumber db] by auto
  with Cons show ?case by simp
qed

text \<open>
  C5. The worker without a deadline, polling a service that answers PROCESSING every time:
  after any number of polls it has not returned, and the database is as it was.
\<close>

theorem worker_noDeadline_keeps_polling:
  "PollOrderStatus_noDeadline toInteger orderNumber (replicate n processing) db = (db, Polling)"
  by (induction n) (simp_all add: pollOnce_def processing_def)

text \<open>
  The worker with the deadline leaves as soon as its \<open>select\<close> takes the done case, and the
  polls without a verdict before that wrote nothing.
\<close>

lemma worker_deadline_exit_general:
  "list_all (\<lambda>res. \<not> is_verdict res) ress \<Longrightarrow>
   PollOrderStatus toInteger ctx orderNumber (map TickerC ress @ PollCtxDone # cases) db
     = (db, Exited)"
proof (induction ress)
  case Nil
  then show ?case by simp
next
  case (Cons res ress)
  then obtain p where "pollOnce toInteger ctx orderNumber res db = (db, Continue p)"
    using pollOnce_no_verdict [of res toInteger ctx orderNumber db] by auto
  with Cons show ?case by simp
qed

text \<open>
  The pause after a rate-limited response: the hinted number of seconds for a numeral of
  at most 9223372036, and 30 seconds when the header is absent or is not an integer.
\<close>

lemma retryAfterOf_in_range:
  assumes n: "is_numeral h" and le: "numeral_value h \<le> 9223372036"
  shows "Sleep (retryAfterOf h) = int (numeral_value h) * 1000000000"
proof -
  have v: "numeral_value h < 2 ^ 63" using le by simp
  from Atoi_numeral [OF n] v have a: "Atoi h = Some (int (numeral_value h))" by simp
  from n have ne: "h \<noteq> []" by (simp add: is_numeral_def)
  let ?k = "int (numeral_value h) * 1000000000"
  have lo: "- (2 ^ 63) \<le> ?k" by simp
  have "?k \<le> 9223372036 * 1000000000" using le by simp
  then have hi: "?k < 2 ^ 63" by simp
  have eq: "retryAfterOf h = (word_of_int ?k :: 64 word)"
    using a ne by (simp add: retryAfterOf_def Second_def)
  have "sint (word_of_int ?k :: 64 word) = signed_take_bit (LENGTH(64) - 1) ?k"
    by (rule sint_sbintrunc')
  also have "\<dots> = signed_take_bit 63 ?k" by simp
  also have "\<dots> = ?k"
    using lo hi by (rule signed_take_bit_int_eq_self)
  finally have "sint (retryAfterOf h) = ?k" unfolding eq .
  then show ?thesis by (simp add: Sleep_def)
qed

lemma retryAfterOf_default:
  "Sleep (retryAfterOf []) = 30 * 1000000000 \<and> Sleep (retryAfterOf ''soon'') = 30 * 1000000000"
  by (simp add: retryAfterOf_def Sleep_def Second_def Atoi_def isDigitByte_def)

lemma Atoi_9223372037: "Atoi ''9223372037'' = Some 9223372037"
  by (simp add: Atoi_def isDigitByte_def)

text \<open>
  C6. A rate-limited response with the header Retry-After: 9223372037. The product
  \<open>time.Duration(seconds) * time.Second\<close> wraps to a negative duration, \<open>time.Sleep\<close>
  returns at once, and the worker is back at its \<open>select\<close> without any pause.
\<close>

theorem rate_limit_hint_overflow:
  "sint (retryAfterOf ''9223372037'') = - 9223372036709551616 \<and>
   pollOnce toInteger ctx orderNumber (rateLimited ''9223372037'') db = (db, Continue 0)"
  by (simp add: pollOnce_def rateLimited_def retryAfterOf_def Atoi_9223372037 Sleep_def
      Second_def)


end
